theory Spec2Isabelle
  imports Main
begin

section \<open>Type objects and values at the C boundary\<close>

text \<open>
  The objects that \<^verbatim>\<open>power_grid_core.py\<close> uses as annotations and as ctypes
  types. \<open>py_str\<close>, \<open>py_int\<close> and \<open>py_float\<close> are Python's \<^verbatim>\<open>str\<close>,
  \<^verbatim>\<open>int\<close> and \<^verbatim>\<open>float\<close>; \<open>PyNone\<close> is the object \<^verbatim>\<open>None\<close> (the
  annotation \<^verbatim>\<open>-> None\<close> of a function, and a legal ctypes \<^verbatim>\<open>restype\<close>),
  \<open>NoneType\<close> is \<^verbatim>\<open>type(None)\<close> (what \<^verbatim>\<open>Callable[..., None].__args__\<close>
  holds). \<open>IdxC\<close> and \<open>IdC\<close> are imported from \<^verbatim>\<open>index_integer\<close> and are
  kept as type objects of their own.
\<close>

datatype pytype =
    py_str | py_int | py_float | NoneType | PyNone
  | c_char_p | c_double | c_size_t | c_void_p
  | IdxC | IdC
  | HandlePtr | OptionsPtr | ModelPtr
  | POINTER pytype

definition IdxPtr :: pytype where
  "IdxPtr = POINTER IdxC"

definition IdxDoublePtr :: pytype where
  "IdxDoublePtr = POINTER IdxPtr"

definition IDPtr :: pytype where
  "IDPtr = POINTER IdC"

definition CharDoublePtr :: pytype where
  "CharDoublePtr = POINTER c_char_p"

definition VoidDoublePtr :: pytype where
  "VoidDoublePtr = POINTER c_void_p"

text \<open>
  Host values: text, byte strings, integers, floats (mantissa and exponent; they only
  pass through), \<^verbatim>\<open>None\<close>, and instances of ctypes types identified by an address.
\<close>

datatype pyval =
    PyStr string
  | PyBytes "nat list"
  | PyInt int
  | PyFloat int int
  | NoneVal
  | CObj pytype nat

datatype exn =
    AttributeError
  | IndexError
  | NotImplementedError string
  | OSError
  | UnicodeError
  | ForeignError string

section \<open>String tests\<close>

fun startswith :: "string \<Rightarrow> string \<Rightarrow> bool" where
  "startswith s [] = True"
| "startswith [] (p # ps) = False"
| "startswith (c # cs) (p # ps) = (c = p \<and> startswith cs ps)"

text \<open>\<^verbatim>\<open>sub in s\<close> on strings: \<open>sub\<close> occurs in \<open>s\<close> as a contiguous run.\<close>

fun py_in :: "string \<Rightarrow> string \<Rightarrow> bool" where
  "py_in sub [] = (sub = [])"
| "py_in sub (c # cs) = (startswith (c # cs) sub \<or> py_in sub cs)"

section \<open>The type mapping table\<close>

definition FUNC_SIZE_T_RES :: "string list" where
  "FUNC_SIZE_T_RES = [''meta_class_size'', ''meta_class_alignment'', ''meta_attribute_offset'']"

definition ARGS_TYPE_MAPPING :: "(pytype \<times> pytype) list" where
  "ARGS_TYPE_MAPPING = [(py_str, c_char_p), (py_int, IdxC), (py_float, c_double)]"

text \<open>\<^verbatim>\<open>_ARGS_TYPE_MAPPING.get(x, x)\<close>\<close>

definition mapping_get :: "pytype \<Rightarrow> pytype" where
  "mapping_get x = (case map_of ARGS_TYPE_MAPPING x of Some y \<Rightarrow> y | None \<Rightarrow> x)"

section \<open>The surroundings: platform, loader, foreign calls, codecs\<close>

text \<open>
  What the module takes from outside the repository is a parameter of the model:
  \<^verbatim>\<open>platform.system()\<close>, the directory of the module file and the path join of
  \<^verbatim>\<open>pathlib\<close>, whether \<^verbatim>\<open>CDLL(path)\<close> can load a file, which symbols the
  library exports, what a call of a ctypes function object does (it sees the
  \<^verbatim>\<open>argtypes\<close> and \<^verbatim>\<open>restype\<close> set on it, the inputs and the native state
  \<open>'n\<close>; it may raise), and the codecs \<^verbatim>\<open>str.encode\<close> and \<^verbatim>\<open>bytes.decode\<close>.
\<close>

record 'n env =
  platform_system :: string
  module_dir :: string
  path_join :: "string \<Rightarrow> string \<Rightarrow> string"
  cdll_loadable :: "string \<Rightarrow> bool"
  has_symbol :: "string \<Rightarrow> bool"
  foreign_call :: "string \<Rightarrow> pytype list option \<Rightarrow> pytype option \<Rightarrow> pyval list \<Rightarrow> 'n
                     \<Rightarrow> (exn + pyval) \<times> 'n"
  str_encode :: "string \<Rightarrow> exn + nat list"
  bytes_decode :: "nat list \<Rightarrow> exn + string"

datatype cfg_write = SetArgtypes string "pytype list" | SetRestype string pytype

fun cfg_symbol :: "cfg_write \<Rightarrow> string" where
  "cfg_symbol (SetArgtypes s ts) = s"
| "cfg_symbol (SetRestype s t) = s"

text \<open>
  The process state: the native state, the \<^verbatim>\<open>argtypes\<close> and \<^verbatim>\<open>restype\<close>
  attributes of the function objects of \<^verbatim>\<open>_CDLL\<close> (\<open>None\<close>: never assigned), and
  three traces: the native calls made, the assignments to \<^verbatim>\<open>argtypes\<close> and
  \<^verbatim>\<open>restype\<close>, and the paths handed to \<^verbatim>\<open>CDLL\<close>.
\<close>

record 'n world =
  native :: 'n
  calls :: "(string \<times> pyval list) list"
  argtypes_cfg :: "string \<Rightarrow> pytype list option"
  restype_cfg :: "string \<Rightarrow> pytype option"
  cfg_log :: "cfg_write list"
  load_log :: "string list"

type_synonym ('n, 'a) py = "'n world \<Rightarrow> (exn + 'a) \<times> 'n world"

definition returnE :: "'a \<Rightarrow> ('n, 'a) py" where
  "returnE a w = (Inr a, w)"

definition raiseE :: "exn \<Rightarrow> ('n, 'a) py" where
  "raiseE e w = (Inl e, w)"

definition bindE :: "('n, 'a) py \<Rightarrow> ('a \<Rightarrow> ('n, 'b) py) \<Rightarrow> ('n, 'b) py" where
  "bindE m f w = (case m w of (Inl e, w') \<Rightarrow> (Inl e, w') | (Inr a, w') \<Rightarrow> f a w')"

text \<open>\<^verbatim>\<open>getattr(_CDLL, symb)\<close>: the function object of an exported symbol.\<close>

definition getattr_CDLL :: "'n env \<Rightarrow> string \<Rightarrow> ('n, string) py" where
  "getattr_CDLL E symb w = (if has_symbol E symb then (Inr symb, w) else (Inl AttributeError, w))"

definition set_argtypes :: "string \<Rightarrow> pytype list \<Rightarrow> ('n, unit) py" where
  "set_argtypes symb ts w =
     (Inr (), w\<lparr>argtypes_cfg := (argtypes_cfg w)(symb \<mapsto> ts),
               cfg_log := cfg_log w @ [SetArgtypes symb ts]\<rparr>)"

definition set_restype :: "string \<Rightarrow> pytype \<Rightarrow> ('n, unit) py" where
  "set_restype symb t w =
     (Inr (), w\<lparr>restype_cfg := (restype_cfg w)(symb \<mapsto> t),
               cfg_log := cfg_log w @ [SetRestype symb t]\<rparr>)"

text \<open>Calling a function object of the library with the inputs \<open>c_inputs\<close>.\<close>

definition call_cfunc :: "'n env \<Rightarrow> string \<Rightarrow> pyval list \<Rightarrow> ('n, pyval) py" where
  "call_cfunc E symb c_inputs w =
     (case foreign_call E symb (argtypes_cfg w symb) (restype_cfg w symb) c_inputs (native w) of
        (r, n') \<Rightarrow> (r, w\<lparr>native := n', calls := calls w @ [(symb, c_inputs)]\<rparr>))"

text \<open>\<^verbatim>\<open>arg.encode()\<close> and \<^verbatim>\<open>res.decode()\<close>: only text has the first, only bytes the second.\<close>

fun py_encode :: "'n env \<Rightarrow> pyval \<Rightarrow> exn + pyval" where
  "py_encode E (PyStr s) = (case str_encode E s of Inl e \<Rightarrow> Inl e | Inr b \<Rightarrow> Inr (PyBytes b))"
| "py_encode E v = Inl AttributeError"

fun py_decode :: "'n env \<Rightarrow> pyval \<Rightarrow> exn + pyval" where
  "py_decode E (PyBytes b) = (case bytes_decode E b of Inl e \<Rightarrow> Inl e | Inr s \<Rightarrow> Inr (PyStr s))"
| "py_decode E v = Inl AttributeError"

section \<open>The loader\<close>

definition load_core :: "'n env \<Rightarrow> ('n, unit) py" where
  "load_core E w =
     (let dll_file = (if platform_system E = ''Windows'' then ''_power_grid_core.dll''
                      else ''_power_grid_core.so'');
          path = path_join E (module_dir E) dll_file;
          w1 = w\<lparr>load_log := load_log w @ [path]\<rparr>
      in if \<not> cdll_loadable E path then (Inl OSError, w1)
         else (bindE (getattr_CDLL E ''PGM_create_handle'') (\<lambda>f.
               bindE (set_argtypes f []) (\<lambda>_.
               bindE (getattr_CDLL E ''PGM_create_handle'') (\<lambda>f.
               bindE (set_restype f HandlePtr) (\<lambda>_.
               bindE (getattr_CDLL E ''PGM_destroy_handle'') (\<lambda>f.
               bindE (set_argtypes f [HandlePtr]) (\<lambda>_.
               bindE (getattr_CDLL E ''PGM_destroy_handle'') (\<lambda>f.
               set_restype f PyNone)))))))) w1)"

section \<open>The binding generator \<^verbatim>\<open>make_c_binding\<close>\<close>

text \<open>A decorated method: its name, the annotations of its parameters after \<^verbatim>\<open>self\<close>, its return annotation.\<close>

record pyfunc =
  fname :: string
  arg_annots :: "pytype list"
  ret_annot :: pytype

text \<open>The closure \<^verbatim>\<open>cbind_func\<close> with the variables it captures.\<close>

datatype cbind = Cbind (cb_name: string) (cb_c_argtypes: "pytype list") (cb_c_restype: pytype)

definition make_c_binding :: "'n env \<Rightarrow> pyfunc \<Rightarrow> ('n, cbind) py" where
  "make_c_binding E func =
     (let name = fname func;
          py_argtypes = arg_annots func;
          py_restype = ret_annot func;
          c_argtypes = map mapping_get py_argtypes;
          c_restype = mapping_get py_restype;
          c_restype = (if c_restype = IdxC \<and> name \<in> set FUNC_SIZE_T_RES then c_size_t
                       else c_restype);
          is_destroy_func = py_in ''destroy'' name
      in bindE (getattr_CDLL E (''PGM_'' @ name)) (\<lambda>f.
         bindE (if is_destroy_func then set_argtypes f c_argtypes
                else set_argtypes f ([HandlePtr] @ c_argtypes)) (\<lambda>_.
         bindE (getattr_CDLL E (''PGM_'' @ name)) (\<lambda>f.
         bindE (set_restype f c_restype) (\<lambda>_.
         returnE (Cbind name c_argtypes c_restype))))))"

text \<open>
  The loop \<^verbatim>\<open>for arg, arg_type in zip(args, c_argtypes)\<close> of both call paths,
  appending to \<open>c_inputs\<close>.
\<close>

fun marshal :: "'n env \<Rightarrow> pyval list \<Rightarrow> pytype list \<Rightarrow> pyval list \<Rightarrow> exn + pyval list" where
  "marshal E [] ts c_inputs = Inr c_inputs"
| "marshal E (a # as) [] c_inputs = Inr c_inputs"
| "marshal E (a # as) (t # ts) c_inputs =
     (if t = c_char_p
      then (case py_encode E a of Inl e \<Rightarrow> Inl e
            | Inr b \<Rightarrow> marshal E as ts (c_inputs @ [b]))
      else marshal E as ts (c_inputs @ [a]))"

text \<open>An instance of \<^verbatim>\<open>WrapperFunc\<close>.\<close>

record wrapper =
  wf_cfunc :: string
  wf_handle :: pyval
  wf_name :: string
  wf_c_argtypes :: "pytype list"
  wf_c_restype :: pytype

text \<open>An instance of \<^verbatim>\<open>PowerGridCore\<close>: \<^verbatim>\<open>_handle\<close> and the attributes set by \<^verbatim>\<open>__init__\<close>.\<close>

record core_instance =
  inst_handle :: pyval
  attrs :: "string \<Rightarrow> wrapper option"

definition cbind_func :: "'n env \<Rightarrow> cbind \<Rightarrow> core_instance \<Rightarrow> pyval list \<Rightarrow> ('n, pyval) py" where
  "cbind_func E cb self args w =
     (let name = cb_name cb; c_argtypes = cb_c_argtypes cb; c_restype = cb_c_restype cb;
          c_inputs = (if py_in ''destroy'' name then [] else [inst_handle self])
      in case marshal E args c_argtypes c_inputs of
           Inl e \<Rightarrow> (Inl e, w)
         | Inr c_inputs \<Rightarrow>
             bindE (getattr_CDLL E (''PGM_'' @ name)) (\<lambda>f.
             bindE (call_cfunc E f c_inputs) (\<lambda>res.
             if c_restype = c_char_p
             then (case py_decode E res of Inl e \<Rightarrow> raiseE e | Inr s \<Rightarrow> returnE s)
             else returnE res)) w)"

section \<open>The functor \<^verbatim>\<open>WrapperFunc\<close>\<close>

definition WrapperFunc_init ::
  "'n env \<Rightarrow> pyval \<Rightarrow> string \<Rightarrow> pytype list \<Rightarrow> pytype \<Rightarrow> ('n, wrapper) py" where
  "WrapperFunc_init E handle name c_argtypes c_restype =
     bindE (getattr_CDLL E (''PGM_'' @ name)) (\<lambda>f.
     returnE \<lparr>wf_cfunc = f, wf_handle = handle, wf_name = name,
              wf_c_argtypes = c_argtypes, wf_c_restype = c_restype\<rparr>)"

definition WrapperFunc_call :: "'n env \<Rightarrow> wrapper \<Rightarrow> pyval list \<Rightarrow> ('n, pyval) py" where
  "WrapperFunc_call E self args w =
     (let c_inputs = (if py_in ''destroy'' (wf_name self) then [] else [wf_handle self])
      in case marshal E args (wf_c_argtypes self) c_inputs of
           Inl e \<Rightarrow> (Inl e, w)
         | Inr c_inputs \<Rightarrow>
             bindE (call_cfunc E (wf_cfunc self) c_inputs) (\<lambda>res.
             if wf_c_restype self = c_char_p
             then (case py_decode E res of Inl e \<Rightarrow> raiseE e | Inr s \<Rightarrow> returnE s)
             else returnE res) w)"

section \<open>The class \<^verbatim>\<open>PowerGridCore\<close>\<close>

text \<open>
  A class-level annotation: a plain type, or \<^verbatim>\<open>Callable[[a1, ...], r]\<close>, whose
  \<^verbatim>\<open>__args__\<close> is the tuple \<^verbatim>\<open>(a1, ..., r)\<close> with \<^verbatim>\<open>None\<close> stored as
  \<^verbatim>\<open>type(None)\<close>. A plain class has no \<^verbatim>\<open>__args__\<close>.
\<close>

datatype annotation = Plain pytype | Callable "pytype list" pytype

fun dunder_args :: "annotation \<Rightarrow> exn + pytype list" where
  "dunder_args (Plain t) = Inl AttributeError"
| "dunder_args (Callable as r) = Inr (as @ [if r = PyNone then NoneType else r])"

definition class_annotations :: "(string \<times> annotation) list" where
  "class_annotations =
    [(''_handle'', Plain HandlePtr),
     (''create_options'', Callable [] OptionsPtr),
     (''destroy_options'', Callable [OptionsPtr] PyNone),
     (''set_calculation_type'', Callable [OptionsPtr, py_int] PyNone),
     (''set_calculation_method'', Callable [OptionsPtr, py_int] PyNone),
     (''set_symmetric'', Callable [OptionsPtr, py_int] PyNone),
     (''set_err_tol'', Callable [OptionsPtr, py_float] PyNone),
     (''set_max_iter'', Callable [OptionsPtr, py_int] PyNone),
     (''set_threading'', Callable [OptionsPtr, py_int] PyNone),
     (''create_model'',
        Callable [py_float, py_int, CharDoublePtr, IdxPtr, VoidDoublePtr] ModelPtr),
     (''update_model'',
        Callable [ModelPtr, py_int, CharDoublePtr, IdxPtr, VoidDoublePtr] PyNone),
     (''copy_model'', Callable [ModelPtr] ModelPtr),
     (''get_indexer'', Callable [ModelPtr, py_str, py_int, IDPtr, IdxPtr] PyNone),
     (''destroy_model'', Callable [ModelPtr] PyNone)]"

text \<open>The methods decorated with \<^verbatim>\<open>@make_c_binding\<close>, in the order of the class body.\<close>

definition decorated_methods :: "pyfunc list" where
  "decorated_methods =
    [\<lparr>fname = ''error_code'', arg_annots = [], ret_annot = py_int\<rparr>,
     \<lparr>fname = ''error_message'', arg_annots = [], ret_annot = py_str\<rparr>,
     \<lparr>fname = ''n_failed_scenarios'', arg_annots = [], ret_annot = py_int\<rparr>,
     \<lparr>fname = ''failed_scenarios'', arg_annots = [], ret_annot = IdxPtr\<rparr>,
     \<lparr>fname = ''batch_errors'', arg_annots = [], ret_annot = CharDoublePtr\<rparr>,
     \<lparr>fname = ''clear_error'', arg_annots = [], ret_annot = PyNone\<rparr>,
     \<lparr>fname = ''is_batch_independent'', arg_annots = [], ret_annot = py_int\<rparr>,
     \<lparr>fname = ''is_batch_cache_topology'', arg_annots = [], ret_annot = py_int\<rparr>,
     \<lparr>fname = ''meta_n_datasets'', arg_annots = [], ret_annot = py_int\<rparr>,
     \<lparr>fname = ''meta_dataset_name'', arg_annots = [py_int], ret_annot = py_str\<rparr>,
     \<lparr>fname = ''meta_n_components'', arg_annots = [py_str], ret_annot = py_int\<rparr>,
     \<lparr>fname = ''meta_component_name'', arg_annots = [py_str, py_int], ret_annot = py_str\<rparr>,
     \<lparr>fname = ''meta_component_alignment'', arg_annots = [py_str, py_str],
        ret_annot = py_int\<rparr>,
     \<lparr>fname = ''meta_component_size'', arg_annots = [py_str, py_str], ret_annot = py_int\<rparr>,
     \<lparr>fname = ''meta_n_attributes'', arg_annots = [py_str, py_str], ret_annot = py_int\<rparr>,
     \<lparr>fname = ''meta_attribute_name'', arg_annots = [py_str, py_str, py_int],
        ret_annot = py_str\<rparr>,
     \<lparr>fname = ''meta_attribute_ctype'', arg_annots = [py_str, py_str, py_str],
        ret_annot = py_str\<rparr>,
     \<lparr>fname = ''meta_attribute_offset'', arg_annots = [py_str, py_str, py_str],
        ret_annot = py_int\<rparr>,
     \<lparr>fname = ''is_little_endian'', arg_annots = [], ret_annot = py_int\<rparr>,
     \<lparr>fname = ''calculate'',
        arg_annots = [ModelPtr, OptionsPtr, py_int, CharDoublePtr, VoidDoublePtr,
                      py_int, py_int, CharDoublePtr, IdxPtr, IdxDoublePtr, VoidDoublePtr],
        ret_annot = PyNone\<rparr>]"

text \<open>Executing the class body: every decorator runs once, in order.\<close>

fun class_body :: "'n env \<Rightarrow> pyfunc list \<Rightarrow> ('n, (string \<times> cbind) list) py" where
  "class_body E [] = returnE []"
| "class_body E (func # funcs) =
     bindE (make_c_binding E func) (\<lambda>cb.
     bindE (class_body E funcs) (\<lambda>cbs.
     returnE ((fname func, cb) # cbs)))"

definition PowerGridCore_new :: "'n env \<Rightarrow> ('n, core_instance) py" where
  "PowerGridCore_new E =
     bindE (getattr_CDLL E ''PGM_create_handle'') (\<lambda>f.
     bindE (call_cfunc E f []) (\<lambda>h.
     returnE \<lparr>inst_handle = h, attrs = Map.empty\<rparr>))"

text \<open>One round of the loop of \<^verbatim>\<open>__init__\<close> for a name that does not start with an underscore.\<close>

definition init_step :: "'n env \<Rightarrow> core_instance \<Rightarrow> string \<Rightarrow> annotation \<Rightarrow> ('n, core_instance) py" where
  "init_step E self name function =
     (case dunder_args function of
        Inl e \<Rightarrow> raiseE e
      | Inr args \<Rightarrow>
          if args = [] then raiseE IndexError
          else
            (let py_argtypes = butlast args;
                 py_restype = last args;
                 c_argtypes = map mapping_get py_argtypes;
                 c_restype = mapping_get py_restype;
                 c_restype = (if c_restype = IdxC \<and> name \<in> set FUNC_SIZE_T_RES then c_size_t
                              else c_restype);
                 c_restype = (if c_restype = NoneType then PyNone else c_restype);
                 is_destroy_func = py_in ''destroy'' name
             in bindE (getattr_CDLL E (''PGM_'' @ name)) (\<lambda>f.
                bindE (if is_destroy_func then set_argtypes f c_argtypes
                       else set_argtypes f ([HandlePtr] @ c_argtypes)) (\<lambda>_.
                bindE (getattr_CDLL E (''PGM_'' @ name)) (\<lambda>f.
                bindE (set_restype f c_restype) (\<lambda>_.
                bindE (WrapperFunc_init E (inst_handle self) name c_argtypes c_restype) (\<lambda>wfun.
                returnE (self\<lparr>attrs := (attrs self)(name \<mapsto> wfun)\<rparr>))))))))"

fun init_loop ::
  "'n env \<Rightarrow> core_instance \<Rightarrow> (string \<times> annotation) list \<Rightarrow> ('n, core_instance) py" where
  "init_loop E self [] = returnE self"
| "init_loop E self ((name, function) # rest) =
     (if startswith name ''_'' then init_loop E self rest
      else bindE (init_step E self name function) (\<lambda>self'. init_loop E self' rest))"

definition PowerGridCore_init :: "'n env \<Rightarrow> core_instance \<Rightarrow> ('n, core_instance) py" where
  "PowerGridCore_init E self = init_loop E self class_annotations"

definition PowerGridCore_del :: "'n env \<Rightarrow> core_instance \<Rightarrow> ('n, pyval) py" where
  "PowerGridCore_del E self =
     bindE (getattr_CDLL E ''PGM_destroy_handle'') (\<lambda>f.
     call_cfunc E f [inst_handle self])"

definition PowerGridCore_copy :: "core_instance \<Rightarrow> ('n, core_instance) py" where
  "PowerGridCore_copy self = raiseE (NotImplementedError ''Class not copyable'')"

definition PowerGridCore_deepcopy :: "core_instance \<Rightarrow> 'm \<Rightarrow> ('n, core_instance) py" where
  "PowerGridCore_deepcopy self memodict = raiseE (NotImplementedError ''class not copyable'')"

text \<open>\<^verbatim>\<open>PowerGridCore()\<close>: \<^verbatim>\<open>__new__\<close>, then \<^verbatim>\<open>__init__\<close> on its result.\<close>

definition PowerGridCore_construct :: "'n env \<Rightarrow> ('n, core_instance) py" where
  "PowerGridCore_construct E = bindE (PowerGridCore_new E) (PowerGridCore_init E)"

text \<open>
  Importing the module: the loader, the class body, and the instance
  \<^verbatim>\<open>power_grid_core\<close> made on the last line.
\<close>

definition module_load :: "'n env \<Rightarrow> ('n, (string \<times> cbind) list \<times> core_instance) py" where
  "module_load E =
     bindE (load_core E) (\<lambda>_.
     bindE (class_body E decorated_methods) (\<lambda>cls.
     bindE (PowerGridCore_construct E) (\<lambda>inst.
     returnE (cls, inst))))"

text \<open>
  \<^verbatim>\<open>self.name(*args)\<close>: an attribute of the instance (a \<^verbatim>\<open>WrapperFunc\<close>) comes
  before a function of the class.
\<close>

definition call_method ::
  "'n env \<Rightarrow> (string \<times> cbind) list \<Rightarrow> core_instance \<Rightarrow> string \<Rightarrow> pyval list \<Rightarrow> ('n, pyval) py" where
  "call_method E cls self name args =
     (case attrs self name of
        Some wfun \<Rightarrow> WrapperFunc_call E wfun args
      | None \<Rightarrow>
          (case map_of cls name of
             Some cb \<Rightarrow> cbind_func E cb self args
           | None \<Rightarrow> raiseE AttributeError))"

text \<open>A client calling bindings one after the other, whatever each returns or raises.\<close>

fun run_calls ::
  "'n env \<Rightarrow> (string \<times> cbind) list \<Rightarrow> core_instance \<Rightarrow> (string \<times> pyval list) list
     \<Rightarrow> 'n world \<Rightarrow> 'n world" where
  "run_calls E cls self [] w = w"
| "run_calls E cls self ((name, args) # rest) w =
     run_calls E cls self rest (snd (call_method E cls self name args w))"

section \<open>Notions used to state the properties\<close>

text \<open>The names of the generated bindings: the decorated methods and the public annotations.\<close>

definition binding_names :: "string list" where
  "binding_names =
     map fname decorated_methods
     @ filter (\<lambda>name. \<not> startswith name ''_'') (map fst class_annotations)"

fun writes_argtypes :: "string \<Rightarrow> cfg_write \<Rightarrow> bool" where
  "writes_argtypes s (SetArgtypes s' ts) = (s = s')"
| "writes_argtypes s (SetRestype s' t) = False"

fun writes_restype :: "string \<Rightarrow> cfg_write \<Rightarrow> bool" where
  "writes_restype s (SetArgtypes s' ts) = False"
| "writes_restype s (SetRestype s' t) = (s = s')"

text \<open>A computation leaves a component \<open>p\<close> of the process state as it found it.\<close>

definition keeps :: "('n world \<Rightarrow> 'a) \<Rightarrow> ('n, 'b) py \<Rightarrow> bool" where
  "keeps p m = (\<forall>w. p (snd (m w)) = p w)"

text \<open>
  The attributes of an instance are wrappers for exactly the names \<open>names\<close>, each
  bound to its own symbol and holding the handle of the instance.
\<close>

definition well_formed :: "core_instance \<Rightarrow> string list \<Rightarrow> bool" where
  "well_formed self names \<longleftrightarrow>
     (\<forall>n. n \<in> set names \<longrightarrow> attrs self n \<noteq> None) \<and>
     (\<forall>n wfun. attrs self n = Some wfun \<longrightarrow>
        n \<in> set names \<and> wf_name wfun = n \<and> wf_cfunc wfun = ''PGM_'' @ n \<and>
        wf_handle wfun = inst_handle self)"

text \<open>
  A sample surrounding on which the model can be run: a library that exports every
  symbol, hands out the handle at address 4096, answers the five text queries with the
  bytes of \<^verbatim>\<open>node\<close> and anything else with the number of inputs it got, and counts
  its calls;
  codecs that map characters to their codes and back.
\<close>

definition sample_env :: "nat env" where
  "sample_env =
     \<lparr>platform_system = ''Linux'',
      module_dir = ''/opt/pgm'',
      path_join = (\<lambda>d f. d @ ''/'' @ f),
      cdll_loadable = (\<lambda>p. True),
      has_symbol = (\<lambda>s. True),
      foreign_call = (\<lambda>symb ats rt c_inputs n.
         (if symb = ''PGM_create_handle'' then Inr (CObj HandlePtr 4096)
          else if symb \<in> set [''PGM_error_message'', ''PGM_meta_dataset_name'',
                               ''PGM_meta_component_name'', ''PGM_meta_attribute_name'',
                               ''PGM_meta_attribute_ctype'']
               then Inr (PyBytes [110, 111, 100, 101])
          else Inr (PyInt (int (length c_inputs))), Suc n)),
      str_encode = (\<lambda>s. Inr (map of_char s)),
      bytes_decode = (\<lambda>b. Inr (map char_of b))\<rparr>"

definition sample_world :: "nat world" where
  "sample_world =
     \<lparr>native = 0, calls = [], argtypes_cfg = Map.empty, restype_cfg = Map.empty,
      cfg_log = [], load_log = []\<rparr>"

section \<open>The computations, step by step\<close>

lemma startswith_iff: "startswith s p \<longleftrightarrow> (\<exists>q. s = p @ q)"
  by (induction s p rule: startswith.induct) auto

lemma bindE_Inr: "m w = (Inr a, w') \<Longrightarrow> bindE m f w = f a w'"
  by (simp add: bindE_def)

lemma bindE_Inl: "m w = (Inl e, w') \<Longrightarrow> bindE m f w = (Inl e, w')"
  by (simp add: bindE_def)

lemma bindE_eq_Inr:
  "bindE m f w = (Inr b, w2) \<longleftrightarrow> (\<exists>a w1. m w = (Inr a, w1) \<and> f a w1 = (Inr b, w2))"
  by (auto simp: bindE_def split: prod.splits sum.splits)

lemma keepsD: "keeps p m \<Longrightarrow> p (snd (m w)) = p w"
  by (simp add: keeps_def)

lemma keepsD2: "keeps p m \<Longrightarrow> m w = (r, w') \<Longrightarrow> p w' = p w"
  by (auto simp: keeps_def dest: spec [where x = w])

lemma keeps_returnE: "keeps p (returnE a)"
  by (simp add: keeps_def returnE_def)

lemma keeps_raiseE: "keeps p (raiseE e)"
  by (simp add: keeps_def raiseE_def)

lemma keeps_getattr: "keeps p (getattr_CDLL E s)"
  by (simp add: keeps_def getattr_CDLL_def)

lemma keeps_bindE: "keeps p m \<Longrightarrow> (\<And>a. keeps p (f a)) \<Longrightarrow> keeps p (bindE m f)"
  by (auto simp: keeps_def bindE_def split: prod.splits sum.splits) (metis snd_conv)+

lemma keeps_if: "keeps p m1 \<Longrightarrow> keeps p m2 \<Longrightarrow> keeps p (if c then m1 else m2)"
  by simp

lemma keeps_case_sum:
  "(\<And>e. keeps p (f e)) \<Longrightarrow> (\<And>a. keeps p (g a)) \<Longrightarrow> keeps p (case x of Inl e \<Rightarrow> f e | Inr a \<Rightarrow> g a)"
  by (cases x) simp_all

lemma keeps_set_argtypes:
  "keeps calls (set_argtypes s ts)" "keeps native (set_argtypes s ts)" "keeps load_log (set_argtypes s ts)"
  by (simp_all add: keeps_def set_argtypes_def)

lemma keeps_set_restype:
  "keeps calls (set_restype s t)" "keeps native (set_restype s t)" "keeps load_log (set_restype s t)"
  by (simp_all add: keeps_def set_restype_def)

lemma keeps_call_cfunc:
  "keeps argtypes_cfg (call_cfunc E s ins)" "keeps restype_cfg (call_cfunc E s ins)"
  "keeps cfg_log (call_cfunc E s ins)" "keeps load_log (call_cfunc E s ins)"
  by (simp_all add: keeps_def call_cfunc_def split: prod.splits)

lemma keeps_WrapperFunc_init: "keeps p (WrapperFunc_init E h name ats rt)"
  unfolding WrapperFunc_init_def by (intro keeps_bindE keeps_getattr keeps_returnE)

lemmas keeps_intros = keeps_bindE keeps_getattr keeps_returnE keeps_raiseE keeps_if
  keeps_case_sum keeps_WrapperFunc_init

lemma keeps_make_c_binding:
  "keeps calls (make_c_binding E func)" "keeps native (make_c_binding E func)"
  "keeps load_log (make_c_binding E func)"
  unfolding make_c_binding_def Let_def
  by (intro keeps_intros keeps_set_argtypes keeps_set_restype)+

lemma keeps_class_body:
  "keeps calls (class_body E funcs)" "keeps native (class_body E funcs)"
  "keeps load_log (class_body E funcs)"
  by (induction funcs) (auto intro!: keeps_intros keeps_make_c_binding)

lemma keeps_init_step:
  "keeps calls (init_step E self name function)" "keeps native (init_step E self name function)"
  "keeps load_log (init_step E self name function)"
  unfolding init_step_def Let_def
  by (intro keeps_intros keeps_set_argtypes keeps_set_restype)+

lemma keeps_init_loop:
  "keeps calls (init_loop E self annots)" "keeps native (init_loop E self annots)"
  "keeps load_log (init_loop E self annots)"
  by (induction annots arbitrary: self) (auto intro!: keeps_intros keeps_init_step)

section \<open>The marshalling loop\<close>

lemma marshal_append:
  "marshal E args ts (acc @ c_inputs) =
     (case marshal E args ts c_inputs of Inl e \<Rightarrow> Inl e | Inr ms \<Rightarrow> Inr (acc @ ms))"
proof (induction E args ts c_inputs arbitrary: acc rule: marshal.induct)
  case (3 E a as t ts c_inputs)
  show ?case
  proof (cases "t = c_char_p")
    case True
    show ?thesis
    proof (cases "py_encode E a")
      case (Inl e)
      with True show ?thesis by simp
    next
      case (Inr b)
      from "3.IH"(1) [OF True Inr, of acc] True Inr show ?thesis by simp
    qed
  next
    case False
    from "3.IH"(2) [OF False, of acc] False show ?thesis by simp
  qed
qed simp_all

lemma marshal_acc:
  "marshal E args ts acc =
     (case marshal E args ts [] of Inl e \<Rightarrow> Inl e | Inr ms \<Rightarrow> Inr (acc @ ms))"
  using marshal_append [of E args ts acc "[]"] by simp

lemma marshal_take_args:
  "marshal E args ts acc = marshal E (take (length ts) args) ts acc"
  by (induction E args ts acc rule: marshal.induct) (simp_all split: sum.splits)

lemma marshal_take_types:
  "marshal E args ts acc = marshal E args (take (length args) ts) acc"
  by (induction E args ts acc rule: marshal.induct) (simp_all split: sum.splits)

lemma marshal_length:
  "marshal E args ts acc = Inr r \<Longrightarrow> length r = length acc + min (length args) (length ts)"
  by (induction E args ts acc arbitrary: r rule: marshal.induct)
     (auto split: sum.splits if_splits)

text \<open>What one position is turned into.\<close>

lemma marshal_Cons:
  "marshal E (a # as) (t # ts) [] = Inr ms \<longleftrightarrow>
     (\<exists>m ms'. ms = m # ms' \<and> marshal E as ts [] = Inr ms' \<and>
        (if t = c_char_p then py_encode E a = Inr m else m = a))"
proof -
  have *: "marshal E as ts [x] = (case marshal E as ts [] of Inl e \<Rightarrow> Inl e | Inr ms \<Rightarrow> Inr (x # ms))" for x
    using marshal_acc [of E as ts "[x]"] by (simp split: sum.splits)
  show ?thesis
    by (cases "py_encode E a") (auto simp: * split: sum.splits)
qed

lemma marshal_nth:
  "marshal E args ts [] = Inr ms \<Longrightarrow> i < length ms \<Longrightarrow>
     (if ts ! i = c_char_p then py_encode E (args ! i) = Inr (ms ! i) else ms ! i = args ! i)"
proof (induction args arbitrary: ts ms i)
  case Nil
  then show ?case by simp
next
  case (Cons a as)
  show ?case
  proof (cases ts)
    case Nil
    with Cons.prems show ?thesis by simp
  next
    case (Cons t ts')
    with Cons.prems(1) have "marshal E (a # as) (t # ts') [] = Inr ms" by simp
    then obtain m ms' where ms: "ms = m # ms'"
      and rest: "marshal E as ts' [] = Inr ms'"
      and first: "if t = c_char_p then py_encode E a = Inr m else m = a"
      using marshal_Cons [of E a as t ts' ms] by blast
    show ?thesis
    proof (cases i)
      case 0
      with ms first Cons show ?thesis by simp
    next
      case (Suc j)
      with Cons.prems(2) ms have "j < length ms'" by simp
      from Cons.IH [OF rest this] Suc ms Cons show ?thesis by simp
    qed
  qed
qed

text \<open>Marshalling succeeds when every position of text type holds text that encodes.\<close>

lemma marshal_total:
  "(\<And>i. i < min (length args) (length ts) \<Longrightarrow> ts ! i = c_char_p \<Longrightarrow>
        \<exists>b. py_encode E (args ! i) = Inr b) \<Longrightarrow>
   \<exists>ms. marshal E args ts [] = Inr ms"
proof (induction args arbitrary: ts)
  case Nil
  then show ?case by simp
next
  case (Cons a as)
  show ?case
  proof (cases ts)
    case Nil
    then show ?thesis by simp
  next
    case (Cons t ts')
    have "\<exists>ms'. marshal E as ts' [] = Inr ms'"
    proof (rule Cons.IH)
      fix i assume "i < min (length as) (length ts')" "ts' ! i = c_char_p"
      with Cons.prems [of "Suc i"] Cons show "\<exists>b. py_encode E (as ! i) = Inr b" by simp
    qed
    then obtain ms' where rest: "marshal E as ts' [] = Inr ms'" ..
    have "\<exists>m. if t = c_char_p then py_encode E a = Inr m else m = a"
      using Cons.prems [of 0] Cons by auto
    then obtain m where "if t = c_char_p then py_encode E a = Inr m else m = a" ..
    with rest have "marshal E (a # as) (t # ts') [] = Inr (m # ms')"
      unfolding marshal_Cons by blast
    with Cons show ?thesis by blast
  qed
qed

section \<open>The two call paths\<close>



lemma cbind_func_marshalled:
  assumes "marshal E args (cb_c_argtypes cb) [] = Inr ms"
    and "has_symbol E (''PGM_'' @ cb_name cb)"
  shows "cbind_func E cb self args w =
     (case call_cfunc E (''PGM_'' @ cb_name cb)
             ((if py_in ''destroy'' (cb_name cb) then [] else [inst_handle self]) @ ms) w of
        (Inl e, w') \<Rightarrow> (Inl e, w')
      | (Inr res, w') \<Rightarrow>
          (if cb_c_restype cb = c_char_p then py_decode E res else Inr res, w'))"
proof -
  have "marshal E args (cb_c_argtypes cb) acc = Inr (acc @ ms)" for acc
    using marshal_acc [of E args "cb_c_argtypes cb" acc] assms(1) by simp
  then show ?thesis
    using assms(2)
    by (auto simp: cbind_func_def Let_def bindE_def getattr_CDLL_def returnE_def raiseE_def
        split: sum.splits prod.splits)
qed

lemma cbind_func_marshal_fails:
  assumes "marshal E args (cb_c_argtypes cb) [] = Inl e"
  shows "cbind_func E cb self args w = (Inl e, w)"
proof -
  have "marshal E args (cb_c_argtypes cb) acc = Inl e" for acc
    using marshal_acc [of E args "cb_c_argtypes cb" acc] assms(1) by simp
  then show ?thesis
    by (simp add: cbind_func_def Let_def)
qed

lemma WrapperFunc_init_Inr:
  "WrapperFunc_init E h name ats rt w = (Inr wfun, w') \<longleftrightarrow>
     has_symbol E (''PGM_'' @ name) \<and> w' = w \<and>
     wfun = \<lparr>wf_cfunc = ''PGM_'' @ name, wf_handle = h, wf_name = name,
             wf_c_argtypes = ats, wf_c_restype = rt\<rparr>"
  by (auto simp: WrapperFunc_init_def bindE_def getattr_CDLL_def returnE_def)

lemma WrapperFunc_call_marshalled:
  assumes "marshal E args (wf_c_argtypes wfun) [] = Inr ms"
  shows "WrapperFunc_call E wfun args w =
     (case call_cfunc E (wf_cfunc wfun)
             ((if py_in ''destroy'' (wf_name wfun) then [] else [wf_handle wfun]) @ ms) w of
        (Inl e, w') \<Rightarrow> (Inl e, w')
      | (Inr res, w') \<Rightarrow>
          (if wf_c_restype wfun = c_char_p then py_decode E res else Inr res, w'))"
proof -
  have "marshal E args (wf_c_argtypes wfun) acc = Inr (acc @ ms)" for acc
    using marshal_acc [of E args "wf_c_argtypes wfun" acc] assms(1) by simp
  then show ?thesis
    by (auto simp: WrapperFunc_call_def Let_def bindE_def returnE_def raiseE_def
        split: sum.splits prod.splits)
qed

lemma WrapperFunc_call_marshal_fails:
  assumes "marshal E args (wf_c_argtypes wfun) [] = Inl e"
  shows "WrapperFunc_call E wfun args w = (Inl e, w)"
proof -
  have "marshal E args (wf_c_argtypes wfun) acc = Inl e" for acc
    using marshal_acc [of E args "wf_c_argtypes wfun" acc] assms(1) by simp
  then show ?thesis
    by (simp add: WrapperFunc_call_def Let_def)
qed

lemma calls_call_cfunc:
  "calls (snd (call_cfunc E s ins w)) = calls w @ [(s, ins)]"
  by (simp add: call_cfunc_def split: prod.splits)

lemma call_paths_agree:
  assumes "WrapperFunc_init E (inst_handle self) (cb_name cb) (cb_c_argtypes cb) (cb_c_restype cb) w0
             = (Inr wfun, w1)"
  shows "cbind_func E cb self args w = WrapperFunc_call E wfun args w"
proof -
  from assms have exported: "has_symbol E (''PGM_'' @ cb_name cb)"
    and wfun: "wfun = \<lparr>wf_cfunc = ''PGM_'' @ cb_name cb, wf_handle = inst_handle self,
        wf_name = cb_name cb, wf_c_argtypes = cb_c_argtypes cb, wf_c_restype = cb_c_restype cb\<rparr>"
    by (simp_all add: WrapperFunc_init_Inr)
  show ?thesis
    unfolding wfun using exported
    by (auto simp: cbind_func_def WrapperFunc_call_def Let_def bindE_def getattr_CDLL_def
        returnE_def raiseE_def split: sum.splits prod.splits)
qed

lemma snd_case_result:
  "snd (case x of (Inl e, w') \<Rightarrow> (Inl e, w') | (Inr res, w') \<Rightarrow> (f res, w')) = snd x"
  by (auto split: prod.splits sum.splits)

lemma calls_WrapperFunc_call:
  assumes "marshal E args (wf_c_argtypes wfun) [] = Inr ms"
  shows "calls (snd (WrapperFunc_call E wfun args w)) =
           calls w @ [(wf_cfunc wfun,
                       (if py_in ''destroy'' (wf_name wfun) then [] else [wf_handle wfun]) @ ms)]"
  unfolding WrapperFunc_call_marshalled [OF assms] snd_case_result calls_call_cfunc ..

lemma calls_cbind_func:
  assumes "marshal E args (cb_c_argtypes cb) [] = Inr ms"
    and "has_symbol E (''PGM_'' @ cb_name cb)"
  shows "calls (snd (cbind_func E cb self args w)) =
           calls w @ [(''PGM_'' @ cb_name cb,
                       (if py_in ''destroy'' (cb_name cb) then [] else [inst_handle self]) @ ms)]"
  unfolding cbind_func_marshalled [OF assms] snd_case_result calls_call_cfunc ..

lemma make_c_binding_Inr:
  "make_c_binding E func w = (Inr cb, w') \<longleftrightarrow>
     has_symbol E (''PGM_'' @ fname func) \<and>
     cb = Cbind (fname func) (map mapping_get (arg_annots func))
            (if mapping_get (ret_annot func) = IdxC \<and> fname func \<in> set FUNC_SIZE_T_RES
             then c_size_t else mapping_get (ret_annot func)) \<and>
     w' = w\<lparr>argtypes_cfg := (argtypes_cfg w)(''PGM_'' @ fname func \<mapsto>
                 (if py_in ''destroy'' (fname func) then map mapping_get (arg_annots func)
                  else HandlePtr # map mapping_get (arg_annots func))),
             restype_cfg := (restype_cfg w)(''PGM_'' @ fname func \<mapsto> cb_c_restype cb),
             cfg_log := cfg_log w @
               [SetArgtypes (''PGM_'' @ fname func)
                  (if py_in ''destroy'' (fname func) then map mapping_get (arg_annots func)
                   else HandlePtr # map mapping_get (arg_annots func)),
                SetRestype (''PGM_'' @ fname func) (cb_c_restype cb)]\<rparr>"
  by (auto simp: make_c_binding_def Let_def bindE_def getattr_CDLL_def set_argtypes_def
      set_restype_def returnE_def)

section \<open>Loading, construction and the life of a session\<close>

lemma py_in_iff: "py_in sub s \<longleftrightarrow> (\<exists>p q. s = p @ sub @ q)"
proof (induction s)
  case Nil
  show ?case by auto
next
  case (Cons c cs)
  show ?case
  proof
    assume "py_in sub (c # cs)"
    then consider "startswith (c # cs) sub" | "py_in sub cs" by auto
    then show "\<exists>p q. c # cs = p @ sub @ q"
    proof cases
      case 1
      then obtain q where "c # cs = sub @ q" unfolding startswith_iff ..
      then have "c # cs = [] @ sub @ q" by simp
      then show ?thesis by blast
    next
      case 2
      with Cons obtain p q where "cs = p @ sub @ q" by blast
      then have "c # cs = (c # p) @ sub @ q" by simp
      then show ?thesis by blast
    qed
  next
    assume "\<exists>p q. c # cs = p @ sub @ q"
    then obtain p q where eq: "c # cs = p @ sub @ q" by blast
    show "py_in sub (c # cs)"
    proof (cases p)
      case Nil
      with eq have "startswith (c # cs) sub" unfolding startswith_iff by auto
      then show ?thesis by simp
    next
      case (Cons a p')
      with eq have "cs = p' @ sub @ q" by simp
      with Cons.IH have "py_in sub cs" by blast
      then show ?thesis by simp
    qed
  qed
qed

lemma load_core_fails:
  "\<not> cdll_loadable E (path_join E (module_dir E)
        (if platform_system E = ''Windows'' then ''_power_grid_core.dll''
         else ''_power_grid_core.so'')) \<Longrightarrow>
   load_core E w = (Inl OSError, w\<lparr>load_log := load_log w @ [path_join E (module_dir E)
        (if platform_system E = ''Windows'' then ''_power_grid_core.dll''
         else ''_power_grid_core.so'')]\<rparr>)"
  by (simp add: load_core_def Let_def)

lemma load_core_load_log:
  "load_log (snd (load_core E w)) = load_log w @ [path_join E (module_dir E)
        (if platform_system E = ''Windows'' then ''_power_grid_core.dll''
         else ''_power_grid_core.so'')]"
  by (simp add: load_core_def Let_def bindE_def getattr_CDLL_def set_argtypes_def
      set_restype_def)

lemma load_core_Inr:
  "load_core E w = (Inr u, w') \<Longrightarrow>
     has_symbol E ''PGM_create_handle'' \<and> has_symbol E ''PGM_destroy_handle'' \<and>
     argtypes_cfg w' = (argtypes_cfg w)(''PGM_create_handle'' \<mapsto> [],
                                        ''PGM_destroy_handle'' \<mapsto> [HandlePtr]) \<and>
     restype_cfg w' = (restype_cfg w)(''PGM_create_handle'' \<mapsto> HandlePtr,
                                      ''PGM_destroy_handle'' \<mapsto> PyNone) \<and>
     cfg_log w' = cfg_log w @
       [SetArgtypes ''PGM_create_handle'' [], SetRestype ''PGM_create_handle'' HandlePtr,
        SetArgtypes ''PGM_destroy_handle'' [HandlePtr], SetRestype ''PGM_destroy_handle'' PyNone] \<and>
     calls w' = calls w \<and> native w' = native w"
  by (auto simp: load_core_def Let_def bindE_def getattr_CDLL_def set_argtypes_def
      set_restype_def split: if_splits)

lemma keeps_cbind_func:
  "keeps argtypes_cfg (cbind_func E cb self args)" "keeps restype_cfg (cbind_func E cb self args)"
  "keeps cfg_log (cbind_func E cb self args)" "keeps load_log (cbind_func E cb self args)"
  by (auto simp: keeps_def cbind_func_def Let_def bindE_def getattr_CDLL_def call_cfunc_def
      returnE_def raiseE_def split: sum.splits prod.splits)

lemma keeps_WrapperFunc_call:
  "keeps argtypes_cfg (WrapperFunc_call E wfun args)" "keeps restype_cfg (WrapperFunc_call E wfun args)"
  "keeps cfg_log (WrapperFunc_call E wfun args)" "keeps load_log (WrapperFunc_call E wfun args)"
  by (auto simp: keeps_def WrapperFunc_call_def Let_def bindE_def call_cfunc_def
      returnE_def raiseE_def split: sum.splits prod.splits)

lemma keeps_call_method:
  "keeps argtypes_cfg (call_method E cls self name args)"
  "keeps restype_cfg (call_method E cls self name args)"
  "keeps cfg_log (call_method E cls self name args)"
  "keeps load_log (call_method E cls self name args)"
  unfolding call_method_def
  by (auto intro: keeps_cbind_func keeps_WrapperFunc_call keeps_raiseE split: option.splits)

lemma run_calls_keeps:
  "argtypes_cfg (run_calls E cls self cs w) = argtypes_cfg w"
  "restype_cfg (run_calls E cls self cs w) = restype_cfg w"
  "cfg_log (run_calls E cls self cs w) = cfg_log w"
  "load_log (run_calls E cls self cs w) = load_log w"
  by (induction cs arbitrary: w) (auto simp: keepsD [OF keeps_call_method(1)]
      keepsD [OF keeps_call_method(2)] keepsD [OF keeps_call_method(3)]
      keepsD [OF keeps_call_method(4)])

lemma keeps_PowerGridCore_new:
  "keeps argtypes_cfg (PowerGridCore_new E)" "keeps restype_cfg (PowerGridCore_new E)"
  "keeps cfg_log (PowerGridCore_new E)" "keeps load_log (PowerGridCore_new E)"
  unfolding PowerGridCore_new_def
  by (intro keeps_intros keeps_call_cfunc)+

lemma keeps_PowerGridCore_construct:
  "keeps load_log (PowerGridCore_construct E)"
  unfolding PowerGridCore_construct_def PowerGridCore_init_def
  by (intro keeps_intros keeps_PowerGridCore_new keeps_init_loop)

lemma keeps_PowerGridCore_del:
  "keeps argtypes_cfg (PowerGridCore_del E self)" "keeps restype_cfg (PowerGridCore_del E self)"
  "keeps cfg_log (PowerGridCore_del E self)" "keeps load_log (PowerGridCore_del E self)"
  unfolding PowerGridCore_del_def
  by (intro keeps_intros keeps_call_cfunc)+

lemma module_load_load_log:
  "load_log (snd (module_load E w)) = load_log w @ [path_join E (module_dir E)
        (if platform_system E = ''Windows'' then ''_power_grid_core.dll''
         else ''_power_grid_core.so'')]"
proof -
  have rest: "keeps load_log (bindE (class_body E decorated_methods) (\<lambda>cls.
     bindE (PowerGridCore_construct E) (\<lambda>inst. returnE (cls, inst))))"
    by (intro keeps_intros keeps_class_body keeps_PowerGridCore_construct)
  show ?thesis
  proof (cases "load_core E w")
    case (Pair r w')
    with load_core_load_log [of E w] have w': "load_log w' = load_log w @ [path_join E (module_dir E)
        (if platform_system E = ''Windows'' then ''_power_grid_core.dll''
         else ''_power_grid_core.so'')]" by simp
    show ?thesis
    proof (cases r)
      case (Inl e)
      with Pair w' show ?thesis by (simp add: module_load_def bindE_def)
    next
      case (Inr u)
      with Pair have "module_load E w = bindE (class_body E decorated_methods) (\<lambda>cls.
         bindE (PowerGridCore_construct E) (\<lambda>inst. returnE (cls, inst))) w'"
        by (simp add: module_load_def bindE_def)
      with keepsD [OF rest, of w'] w' show ?thesis by simp
    qed
  qed
qed

lemma count_list_distinct: "distinct xs \<Longrightarrow> x \<in> set xs \<Longrightarrow> count_list xs x = 1"
  by (induction xs) (auto simp: count_list_0_iff)

lemma count_list_map_inj:
  "inj f \<Longrightarrow> count_list (map f xs) (f x) = count_list xs x"
  by (induction xs) (auto dest: injD)

lemma inj_PGM: "inj ((@) ''PGM_'')"
  by (rule injI) simp

text \<open>What the class body leaves behind.\<close>

lemma class_body_Inr:
  "class_body E funcs w = (Inr cls, w') \<Longrightarrow>
     map fst cls = map fname funcs \<and> (\<forall>(n, cb) \<in> set cls. cb_name cb = n) \<and>
     (\<forall>s. length (filter (writes_argtypes s) (cfg_log w'))
            = length (filter (writes_argtypes s) (cfg_log w))
              + count_list (map (\<lambda>f. ''PGM_'' @ fname f) funcs) s) \<and>
     (\<forall>s. length (filter (writes_restype s) (cfg_log w'))
            = length (filter (writes_restype s) (cfg_log w))
              + count_list (map (\<lambda>f. ''PGM_'' @ fname f) funcs) s)"
proof (induction funcs arbitrary: w cls w')
  case Nil
  then show ?case by (simp add: returnE_def)
next
  case (Cons func funcs)
  from Cons.prems obtain cb wm cbs where
    first: "make_c_binding E func w = (Inr cb, wm)"
    and rest: "class_body E funcs wm = (Inr cbs, w')"
    and cls: "cls = (fname func, cb) # cbs"
    by (auto simp: bindE_eq_Inr returnE_def)
  from first have name: "cb_name cb = fname func"
    and log: "cfg_log wm = cfg_log w @
       [SetArgtypes (''PGM_'' @ fname func)
          (if py_in ''destroy'' (fname func) then map mapping_get (arg_annots func)
           else HandlePtr # map mapping_get (arg_annots func)),
        SetRestype (''PGM_'' @ fname func) (cb_c_restype cb)]"
    unfolding make_c_binding_Inr by simp_all
  from Cons.IH [OF rest] cls name log show ?case
    by auto
qed

text \<open>What one round and the whole loop of \<^verbatim>\<open>__init__\<close> leave behind.\<close>

lemma init_step_Inr:
  "init_step E self name function w = (Inr self', w') \<Longrightarrow>
     has_symbol E (''PGM_'' @ name) \<and> inst_handle self' = inst_handle self \<and>
     (\<exists>wfun. attrs self' = (attrs self)(name \<mapsto> wfun) \<and> wf_name wfun = name \<and>
        wf_cfunc wfun = ''PGM_'' @ name \<and> wf_handle wfun = inst_handle self) \<and>
     (\<exists>ats rt. cfg_log w' = cfg_log w @ [SetArgtypes (''PGM_'' @ name) ats,
                                         SetRestype (''PGM_'' @ name) rt])"
  by (auto simp: init_step_def Let_def bindE_def getattr_CDLL_def set_argtypes_def
      set_restype_def returnE_def raiseE_def WrapperFunc_init_def
      split: sum.splits if_splits)


lemma init_loop_Inr:
  "init_loop E self annots w = (Inr self', w') \<Longrightarrow> well_formed self names \<Longrightarrow>
     inst_handle self' = inst_handle self \<and>
     well_formed self' (names @ filter (\<lambda>n. \<not> startswith n ''_'') (map fst annots)) \<and>
     (\<forall>n \<in> set (filter (\<lambda>n. \<not> startswith n ''_'') (map fst annots)).
        has_symbol E (''PGM_'' @ n)) \<and>
     (\<forall>s. length (filter (writes_argtypes s) (cfg_log w'))
            = length (filter (writes_argtypes s) (cfg_log w))
              + count_list (map ((@) ''PGM_'')
                  (filter (\<lambda>n. \<not> startswith n ''_'') (map fst annots))) s) \<and>
     (\<forall>s. length (filter (writes_restype s) (cfg_log w'))
            = length (filter (writes_restype s) (cfg_log w))
              + count_list (map ((@) ''PGM_'')
                  (filter (\<lambda>n. \<not> startswith n ''_'') (map fst annots))) s)"
proof (induction annots arbitrary: self w names)
  case Nil
  then show ?case by (simp add: returnE_def)
next
  case (Cons a annots)
  obtain name ann where a: "a = (name, ann)" by (cases a)
  show ?case
  proof (cases "startswith name ''_''")
    case True
    with Cons.prems a have "init_loop E self annots w = (Inr self', w')" by simp
    from Cons.IH [OF this Cons.prems(2)] True a show ?thesis by simp
  next
    case False
    with Cons.prems(1) a obtain selfm wm where
      step: "init_step E self name ann w = (Inr selfm, wm)"
      and rest: "init_loop E selfm annots wm = (Inr self', w')"
      by (auto simp: bindE_eq_Inr)
    from init_step_Inr [OF step] obtain wfun ats rt where
      exported: "has_symbol E (''PGM_'' @ name)"
      and h: "inst_handle selfm = inst_handle self"
      and at: "attrs selfm = (attrs self)(name \<mapsto> wfun)"
      and wfun: "wf_name wfun = name" "wf_cfunc wfun = ''PGM_'' @ name"
        "wf_handle wfun = inst_handle self"
      and log: "cfg_log wm = cfg_log w @ [SetArgtypes (''PGM_'' @ name) ats,
                                         SetRestype (''PGM_'' @ name) rt]"
      by blast
    have wfm: "well_formed selfm (names @ [name])"
      using Cons.prems(2) h at wfun unfolding well_formed_def by auto
    from Cons.IH [OF rest wfm] h exported log False a show ?thesis
      by auto
  qed
qed

lemma binding_names_distinct: "distinct binding_names"
  by (simp add: binding_names_def decorated_methods_def class_annotations_def)

lemma handle_names_not_bindings:
  "''create_handle'' \<notin> set binding_names" "''destroy_handle'' \<notin> set binding_names"
  by (simp_all add: binding_names_def decorated_methods_def class_annotations_def)

lemma PowerGridCore_new_Inr:
  "PowerGridCore_new E w = (Inr self, w') \<Longrightarrow>
     has_symbol E ''PGM_create_handle'' \<and>
     calls w' = calls w @ [(''PGM_create_handle'', [])] \<and>
     fst (call_cfunc E ''PGM_create_handle'' [] w) = Inr (inst_handle self) \<and>
     attrs self = Map.empty \<and> cfg_log w' = cfg_log w"
  by (auto simp: PowerGridCore_new_def bindE_def getattr_CDLL_def call_cfunc_def returnE_def
      split: if_splits prod.splits sum.splits)

lemma PowerGridCore_construct_Inr:
  assumes "PowerGridCore_construct E w = (Inr self, w')"
  shows "calls w' = calls w @ [(''PGM_create_handle'', [])]"
    and "fst (call_cfunc E ''PGM_create_handle'' [] w) = Inr (inst_handle self)"
    and "well_formed self (filter (\<lambda>n. \<not> startswith n ''_'') (map fst class_annotations))"
    and "length (filter (writes_argtypes s) (cfg_log w'))
            = length (filter (writes_argtypes s) (cfg_log w))
              + count_list (map ((@) ''PGM_'')
                  (filter (\<lambda>n. \<not> startswith n ''_'') (map fst class_annotations))) s"
    and "length (filter (writes_restype s) (cfg_log w'))
            = length (filter (writes_restype s) (cfg_log w))
              + count_list (map ((@) ''PGM_'')
                  (filter (\<lambda>n. \<not> startswith n ''_'') (map fst class_annotations))) s"
proof -
  from assms obtain self0 wm where
    new: "PowerGridCore_new E w = (Inr self0, wm)"
    and init: "init_loop E self0 class_annotations wm = (Inr self, w')"
    by (auto simp: PowerGridCore_construct_def PowerGridCore_init_def bindE_eq_Inr)
  note n = PowerGridCore_new_Inr [OF new]
  from n have wf0: "well_formed self0 []" by (simp add: well_formed_def)
  note i = init_loop_Inr [OF init wf0]
  from keepsD2 [OF keeps_init_loop(1) init] n
  show "calls w' = calls w @ [(''PGM_create_handle'', [])]" by simp
  from n i show "fst (call_cfunc E ''PGM_create_handle'' [] w) = Inr (inst_handle self)" by simp
  from i show "well_formed self (filter (\<lambda>n. \<not> startswith n ''_'') (map fst class_annotations))"
    by simp
  from i n show "length (filter (writes_argtypes s) (cfg_log w'))
            = length (filter (writes_argtypes s) (cfg_log w))
              + count_list (map ((@) ''PGM_'')
                  (filter (\<lambda>n. \<not> startswith n ''_'') (map fst class_annotations))) s"
    by simp
  from i n show "length (filter (writes_restype s) (cfg_log w'))
            = length (filter (writes_restype s) (cfg_log w))
              + count_list (map ((@) ''PGM_'')
                  (filter (\<lambda>n. \<not> startswith n ''_'') (map fst class_annotations))) s"
    by simp
qed

lemma module_load_Inr:
  assumes "module_load E w = (Inr (cls, pgc), w')"
  obtains wa wb where "load_core E w = (Inr (), wa)"
    and "class_body E decorated_methods wa = (Inr cls, wb)"
    and "PowerGridCore_construct E wb = (Inr pgc, w')"
  using assms by (auto simp: module_load_def bindE_eq_Inr returnE_def)

lemma cbind_func_no_symbol:
  assumes "marshal E args (cb_c_argtypes cb) [] = Inr ms"
    and "\<not> has_symbol E (''PGM_'' @ cb_name cb)"
  shows "cbind_func E cb self args w = (Inl AttributeError, w)"
proof -
  have "marshal E args (cb_c_argtypes cb) acc = Inr (acc @ ms)" for acc
    using marshal_acc [of E args "cb_c_argtypes cb" acc] assms(1) by simp
  then show ?thesis
    using assms(2)
    by (simp add: cbind_func_def Let_def bindE_def getattr_CDLL_def)
qed

lemma call_method_calls:
  assumes wf: "well_formed self anames"
    and cls: "\<forall>(n, cb) \<in> set cls. cb_name cb = n"
  shows "calls (snd (call_method E cls self name args w)) = calls w
     \<or> (\<exists>ms. calls (snd (call_method E cls self name args w))
            = calls w @ [(''PGM_'' @ name,
                          (if py_in ''destroy'' name then [] else [inst_handle self]) @ ms)]
          \<and> (name \<in> set anames \<or> name \<in> fst ` set cls))"
proof (cases "attrs self name")
  case (Some wfun)
  with wf have f: "name \<in> set anames" "wf_name wfun = name" "wf_cfunc wfun = ''PGM_'' @ name"
    "wf_handle wfun = inst_handle self"
    unfolding well_formed_def by blast+
  from Some have cm: "call_method E cls self name args w = WrapperFunc_call E wfun args w"
    by (simp add: call_method_def)
  show ?thesis
  proof (cases "marshal E args (wf_c_argtypes wfun) []")
    case (Inl e)
    from WrapperFunc_call_marshal_fails [OF this, of w] cm show ?thesis by simp
  next
    case (Inr ms)
    from calls_WrapperFunc_call [OF this, of w] cm f show ?thesis by auto
  qed
next
  case None
  show ?thesis
  proof (cases "map_of cls name")
    case n: None
    with None show ?thesis by (simp add: call_method_def raiseE_def)
  next
    case (Some cb)
    then have mem: "(name, cb) \<in> set cls" by (rule map_of_SomeD)
    with cls have nm: "cb_name cb = name" by auto
    from mem have dom: "name \<in> fst ` set cls" by force
    from None Some have cm: "call_method E cls self name args w = cbind_func E cb self args w"
      by (simp add: call_method_def)
    show ?thesis
    proof (cases "marshal E args (cb_c_argtypes cb) []")
      case (Inl e)
      from cbind_func_marshal_fails [OF this, of self w] cm show ?thesis by simp
    next
      case (Inr ms)
      show ?thesis
      proof (cases "has_symbol E (''PGM_'' @ cb_name cb)")
        case True
        from calls_cbind_func [OF Inr True, of self w] cm nm dom show ?thesis by auto
      next
        case False
        from cbind_func_no_symbol [OF Inr False, of self w] cm show ?thesis by simp
      qed
    qed
  qed
qed

lemma run_calls_calls:
  assumes wf: "well_formed self anames"
    and cls: "\<forall>(n, cb) \<in> set cls. cb_name cb = n"
  shows "\<exists>mid. calls (run_calls E cls self cs w) = calls w @ mid \<and>
           (\<forall>e \<in> set mid. \<exists>name ins.
              (name \<in> set anames \<or> name \<in> fst ` set cls) \<and>
              e = (''PGM_'' @ name,
                   (if py_in ''destroy'' name then [] else [inst_handle self]) @ ins))"
proof (induction cs arbitrary: w)
  case Nil
  show ?case by simp
next
  case (Cons c cs)
  obtain name args where c: "c = (name, args)" by (cases c)
  let ?w = "snd (call_method E cls self name args w)"
  from Cons.IH [of ?w] obtain mid where
    mid: "calls (run_calls E cls self cs ?w) = calls ?w @ mid"
    and good: "\<forall>e \<in> set mid. \<exists>name ins.
              (name \<in> set anames \<or> name \<in> fst ` set cls) \<and>
              e = (''PGM_'' @ name,
                   (if py_in ''destroy'' name then [] else [inst_handle self]) @ ins)"
    by blast
  from call_method_calls [OF wf cls, of E name args w]
  show ?case
  proof
    assume "calls ?w = calls w"
    with mid good c show ?thesis by auto
  next
    assume "\<exists>ms. calls ?w = calls w @ [(''PGM_'' @ name,
                          (if py_in ''destroy'' name then [] else [inst_handle self]) @ ms)]
          \<and> (name \<in> set anames \<or> name \<in> fst ` set cls)"
    then obtain ms where
      one: "calls ?w = calls w @ [(''PGM_'' @ name,
                          (if py_in ''destroy'' name then [] else [inst_handle self]) @ ms)]"
      and dom: "name \<in> set anames \<or> name \<in> fst ` set cls"
      by blast
    let ?e = "(''PGM_'' @ name,
                (if py_in ''destroy'' name then [] else [inst_handle self]) @ ms)"
    have "calls (run_calls E cls self (c # cs) w) = calls w @ (?e # mid)"
      using mid one c by simp
    moreover have "\<forall>e \<in> set (?e # mid). \<exists>name ins.
              (name \<in> set anames \<or> name \<in> fst ` set cls) \<and>
              e = (''PGM_'' @ name,
                   (if py_in ''destroy'' name then [] else [inst_handle self]) @ ins)"
      using good dom by auto
    ultimately show ?thesis by blast
  qed
qed

lemma class_names_are_bindings:
  assumes "class_body E decorated_methods wa = (Inr cls, wb)"
  shows "fst ` set cls \<subseteq> set binding_names" and "\<forall>(n, cb) \<in> set cls. cb_name cb = n"
proof -
  from class_body_Inr [OF assms] have m: "map fst cls = map fname decorated_methods"
    and n: "\<forall>(n, cb) \<in> set cls. cb_name cb = n" by blast+
  from m have "fst ` set cls = set (map fname decorated_methods)"
    by (metis set_map)
  then show "fst ` set cls \<subseteq> set binding_names" by (simp add: binding_names_def)
  from n show "\<forall>(n, cb) \<in> set cls. cb_name cb = n" .
qed

lemma PGM_handle_symbols:
  "name \<in> set binding_names \<Longrightarrow> ''PGM_'' @ name \<noteq> ''PGM_create_handle''"
  "name \<in> set binding_names \<Longrightarrow> ''PGM_'' @ name \<noteq> ''PGM_destroy_handle''"
  using handle_names_not_bindings by auto

text \<open>When the module gets through.\<close>

lemma class_body_succeeds:
  "(\<forall>f \<in> set funcs. has_symbol E (''PGM_'' @ fname f)) \<Longrightarrow>
   \<exists>cls w'. class_body E funcs w = (Inr cls, w')"
proof (induction funcs arbitrary: w)
  case Nil
  show ?case by (simp add: returnE_def)
next
  case (Cons func funcs)
  then have "has_symbol E (''PGM_'' @ fname func)" by simp
  then obtain cb wm where first: "make_c_binding E func w = (Inr cb, wm)"
    by (simp add: make_c_binding_Inr)
  from Cons obtain cbs w' where "class_body E funcs wm = (Inr cbs, w')"
    by fastforce
  with first show ?case
    by (simp add: bindE_def returnE_def)
qed

lemma init_step_succeeds:
  "has_symbol E (''PGM_'' @ name) \<Longrightarrow>
   \<exists>self' w'. init_step E self name (Callable as r) w = (Inr self', w')"
  by (simp add: init_step_def Let_def bindE_def getattr_CDLL_def set_argtypes_def
      set_restype_def returnE_def WrapperFunc_init_def)

lemma init_loop_succeeds:
  "(\<forall>(n, a) \<in> set annots. \<not> startswith n ''_'' \<longrightarrow>
       has_symbol E (''PGM_'' @ n) \<and> (\<exists>as r. a = Callable as r)) \<Longrightarrow>
   \<exists>self' w'. init_loop E self annots w = (Inr self', w')"
proof (induction annots arbitrary: self w)
  case Nil
  show ?case by (simp add: returnE_def)
next
  case (Cons a annots)
  obtain name ann where a: "a = (name, ann)" by (cases a)
  from Cons.prems have rest: "\<forall>(n, a) \<in> set annots. \<not> startswith n ''_'' \<longrightarrow>
       has_symbol E (''PGM_'' @ n) \<and> (\<exists>as r. a = Callable as r)" by simp
  show ?case
  proof (cases "startswith name ''_''")
    case True
    with Cons.IH [OF rest, of self w] a show ?thesis by simp
  next
    case False
    with Cons.prems a obtain as r where "has_symbol E (''PGM_'' @ name)" "ann = Callable as r"
      by auto
    with init_step_succeeds [of E name self as r w] obtain selfm wm where
      "init_step E self name ann w = (Inr selfm, wm)" by blast
    with Cons.IH [OF rest, of selfm wm] False a show ?thesis
      by (simp add: bindE_def)
  qed
qed

lemma public_annotations_callable:
  "\<forall>(n, a) \<in> set class_annotations. \<not> startswith n ''_'' \<longrightarrow> (\<exists>as r. a = Callable as r)"
  by (simp add: class_annotations_def)

lemma PowerGridCore_construct_succeeds:
  assumes "\<forall>s. has_symbol E s"
    and "\<forall>a r n. \<exists>h n'. foreign_call E ''PGM_create_handle'' a r [] n = (Inr h, n')"
  shows "\<exists>self w'. PowerGridCore_construct E w = (Inr self, w')"
proof -
  from assms(2) obtain h n' where
    "foreign_call E ''PGM_create_handle'' (argtypes_cfg w ''PGM_create_handle'')
       (restype_cfg w ''PGM_create_handle'') [] (native w) = (Inr h, n')"
    by blast
  with assms(1) obtain self0 wm where new: "PowerGridCore_new E w = (Inr self0, wm)"
    by (simp add: PowerGridCore_new_def bindE_def getattr_CDLL_def call_cfunc_def returnE_def)
  have "\<forall>(n, a) \<in> set class_annotations. \<not> startswith n ''_'' \<longrightarrow>
       has_symbol E (''PGM_'' @ n) \<and> (\<exists>as r. a = Callable as r)"
    using public_annotations_callable assms(1) by fastforce
  from init_loop_succeeds [OF this, of self0 wm] new show ?thesis
    by (simp add: PowerGridCore_construct_def PowerGridCore_init_def bindE_def)
qed

lemma module_load_succeeds:
  assumes "cdll_loadable E (path_join E (module_dir E)
        (if platform_system E = ''Windows'' then ''_power_grid_core.dll''
         else ''_power_grid_core.so''))"
    and "\<forall>s. has_symbol E s"
    and "\<forall>a r n. \<exists>h n'. foreign_call E ''PGM_create_handle'' a r [] n = (Inr h, n')"
  shows "\<exists>cls pgc w'. module_load E w = (Inr (cls, pgc), w')"
proof -
  from assms(1,2) obtain wa where lc: "load_core E w = (Inr (), wa)"
    by (simp add: load_core_def Let_def bindE_def getattr_CDLL_def set_argtypes_def
        set_restype_def)
  from class_body_succeeds [of decorated_methods E wa] assms(2)
  obtain cls wb where cb: "class_body E decorated_methods wa = (Inr cls, wb)" by blast
  from PowerGridCore_construct_succeeds [OF assms(2,3), of wb]
  obtain pgc w' where "PowerGridCore_construct E wb = (Inr pgc, w')" by blast
  with lc cb show ?thesis
    by (simp add: module_load_def bindE_def returnE_def)
qed

lemma sample_env_works:
  "cdll_loadable sample_env (path_join sample_env (module_dir sample_env)
        (if platform_system sample_env = ''Windows'' then ''_power_grid_core.dll''
         else ''_power_grid_core.so''))"
  "\<forall>s. has_symbol sample_env s"
  "\<forall>a r n. \<exists>h n'. foreign_call sample_env ''PGM_create_handle'' a r [] n = (Inr h, n')"
  by (simp_all add: sample_env_def)

lemma construct_assigns_annotated_only:
  assumes built: "PowerGridCore_construct E w = (Inr self, w')"
    and n: "n \<in> set binding_names"
  shows "length (filter (writes_argtypes (''PGM_'' @ n)) (cfg_log w'))
           = length (filter (writes_argtypes (''PGM_'' @ n)) (cfg_log w))
             + (if n \<in> fname ` set decorated_methods then 0 else 1)"
    and "length (filter (writes_restype (''PGM_'' @ n)) (cfg_log w'))
           = length (filter (writes_restype (''PGM_'' @ n)) (cfg_log w))
             + (if n \<in> fname ` set decorated_methods then 0 else 1)"
proof -
  let ?anames = "filter (\<lambda>n. \<not> startswith n ''_'') (map fst class_annotations)"
  note c = PowerGridCore_construct_Inr [OF built]
  from binding_names_distinct have d: "distinct ?anames"
    and disj: "set (map fname decorated_methods) \<inter> set ?anames = {}"
    unfolding binding_names_def by (simp_all only: distinct_append)
  have cnt: "count_list (map ((@) ''PGM_'') ?anames) (''PGM_'' @ n)
      = (if n \<in> fname ` set decorated_methods then 0 else 1)"
  proof (cases "n \<in> fname ` set decorated_methods")
    case True
    with disj have "n \<notin> set ?anames" by auto
    then have "count_list ?anames n = 0" by (simp add: count_list_0_iff)
    with True count_list_map_inj [OF inj_PGM, of ?anames n] show ?thesis by simp
  next
    case False
    with n have "n \<in> set ?anames" by (auto simp: binding_names_def)
    from count_list_distinct [OF d this] False count_list_map_inj [OF inj_PGM, of ?anames n]
    show ?thesis by simp
  qed
  from c(4) [of "''PGM_'' @ n"] cnt
  show "length (filter (writes_argtypes (''PGM_'' @ n)) (cfg_log w'))
           = length (filter (writes_argtypes (''PGM_'' @ n)) (cfg_log w))
             + (if n \<in> fname ` set decorated_methods then 0 else 1)" by simp
  from c(5) [of "''PGM_'' @ n"] cnt
  show "length (filter (writes_restype (''PGM_'' @ n)) (cfg_log w'))
           = length (filter (writes_restype (''PGM_'' @ n)) (cfg_log w))
             + (if n \<in> fname ` set decorated_methods then 0 else 1)" by simp
qed

text \<open>A call without arguments always reaches the library.\<close>

lemma call_method_no_args:
  assumes wf: "well_formed self anames"
    and cls: "\<forall>(n, cb) \<in> set cls. cb_name cb = n"
    and dom: "name \<in> set anames \<or> (name \<in> fst ` set cls \<and> has_symbol E (''PGM_'' @ name))"
  shows "calls (snd (call_method E cls self name [] w))
           = calls w @ [(''PGM_'' @ name,
                         if py_in ''destroy'' name then [] else [inst_handle self])]"
proof (cases "attrs self name")
  case (Some wfun)
  with wf have f: "wf_name wfun = name" "wf_cfunc wfun = ''PGM_'' @ name"
    "wf_handle wfun = inst_handle self"
    unfolding well_formed_def by blast+
  from Some have cm: "call_method E cls self name [] w = WrapperFunc_call E wfun [] w"
    by (simp add: call_method_def)
  have "marshal E [] (wf_c_argtypes wfun) [] = Inr []" by simp
  from calls_WrapperFunc_call [OF this, of w] cm f show ?thesis by simp
next
  case None
  with wf have "name \<notin> set anames" unfolding well_formed_def by blast
  with dom have d: "name \<in> fst ` set cls" and exported: "has_symbol E (''PGM_'' @ name)"
    by blast+
  from d obtain cb where s: "map_of cls name = Some cb"
    by (metis map_of_eq_None_iff not_Some_eq)
  then have "(name, cb) \<in> set cls" by (rule map_of_SomeD)
  with cls have nm: "cb_name cb = name" by auto
  from None s have cm: "call_method E cls self name [] w = cbind_func E cb self [] w"
    by (simp add: call_method_def)
  have m: "marshal E [] (cb_c_argtypes cb) [] = Inr []" by simp
  from exported nm have "has_symbol E (''PGM_'' @ cb_name cb)" by simp
  from calls_cbind_func [OF m this, of self w] cm nm show ?thesis by simp
qed

section \<open>The claims\<close>

text \<open>
  C1, evaluated on the code. The claim expects the wire return type \<open>c_size_t\<close> for
  \<^verbatim>\<open>meta_component_size\<close>. The set \<^verbatim>\<open>_FUNC_SIZE_T_RES\<close> holds
  \<^verbatim>\<open>meta_class_size\<close> and \<^verbatim>\<open>meta_class_alignment\<close>, names that no declared
  operation has, so the declared methods \<^verbatim>\<open>meta_component_size\<close> and
  \<^verbatim>\<open>meta_component_alignment\<close> keep the return type \<open>IdxC\<close>, in the closure and
  on the function object of the library; \<^verbatim>\<open>meta_attribute_offset\<close> alone gets
  \<open>c_size_t\<close>.
\<close>

theorem size_query_restype_not_overridden:
  "\<lparr>fname = ''meta_component_size'', arg_annots = [py_str, py_str], ret_annot = py_int\<rparr>
     \<in> set decorated_methods
   \<and> fst (make_c_binding sample_env
        \<lparr>fname = ''meta_component_size'', arg_annots = [py_str, py_str], ret_annot = py_int\<rparr>
        sample_world)
     = Inr (Cbind ''meta_component_size'' [c_char_p, c_char_p] IdxC)
   \<and> restype_cfg (snd (make_c_binding sample_env
        \<lparr>fname = ''meta_component_size'', arg_annots = [py_str, py_str], ret_annot = py_int\<rparr>
        sample_world)) ''PGM_meta_component_size'' = Some IdxC
   \<and> \<lparr>fname = ''meta_component_alignment'', arg_annots = [py_str, py_str], ret_annot = py_int\<rparr>
     \<in> set decorated_methods
   \<and> fst (make_c_binding sample_env
        \<lparr>fname = ''meta_component_alignment'', arg_annots = [py_str, py_str],
         ret_annot = py_int\<rparr> sample_world)
     = Inr (Cbind ''meta_component_alignment'' [c_char_p, c_char_p] IdxC)
   \<and> fst (make_c_binding sample_env
        \<lparr>fname = ''meta_attribute_offset'', arg_annots = [py_str, py_str, py_str],
         ret_annot = py_int\<rparr> sample_world)
     = Inr (Cbind ''meta_attribute_offset'' [c_char_p, c_char_p, c_char_p] c_size_t)"
  by (simp add: decorated_methods_def make_c_binding_def Let_def bindE_def getattr_CDLL_def
      set_argtypes_def set_restype_def returnE_def sample_env_def mapping_get_def
      ARGS_TYPE_MAPPING_def FUNC_SIZE_T_RES_def)

text \<open>
  C2: when the operation name contains \<^verbatim>\<open>destroy\<close>, the native call gets the
  marshalled caller arguments and no handle; otherwise the handle of the session comes
  first and the marshalled caller arguments follow. This holds on both call paths.
\<close>

theorem handle_prepended_unless_destroy:
  assumes "WrapperFunc_init E (inst_handle self) name c_argtypes c_restype w0 = (Inr wfun, w1)"
    and "marshal E args c_argtypes [] = Inr ms"
  shows "calls (snd (cbind_func E (Cbind name c_argtypes c_restype) self args w))
           = calls w @ [(''PGM_'' @ name,
                         if py_in ''destroy'' name then ms else inst_handle self # ms)]
       \<and> calls (snd (WrapperFunc_call E wfun args w))
           = calls w @ [(''PGM_'' @ name,
                         if py_in ''destroy'' name then ms else inst_handle self # ms)]"
proof -
  from assms(1) have exported: "has_symbol E (''PGM_'' @ name)"
    and wfun: "wfun = \<lparr>wf_cfunc = ''PGM_'' @ name, wf_handle = inst_handle self,
        wf_name = name, wf_c_argtypes = c_argtypes, wf_c_restype = c_restype\<rparr>"
    by (simp_all add: WrapperFunc_init_Inr)
  have "calls (snd (cbind_func E (Cbind name c_argtypes c_restype) self args w))
           = calls w @ [(''PGM_'' @ name,
                         if py_in ''destroy'' name then ms else inst_handle self # ms)]"
    using calls_cbind_func [of E args "Cbind name c_argtypes c_restype" ms self w]
      assms(2) exported by simp
  moreover have "calls (snd (WrapperFunc_call E wfun args w))
           = calls w @ [(''PGM_'' @ name,
                         if py_in ''destroy'' name then ms else inst_handle self # ms)]"
    using calls_WrapperFunc_call [of E args wfun ms w] assms(2) by (simp add: wfun)
  ultimately show ?thesis by simp
qed

theorem handle_prepended_unless_destroy_witness:
  "WrapperFunc_init sample_env (CObj HandlePtr 4096) ''destroy_model'' [ModelPtr] PyNone
       sample_world
     = (Inr \<lparr>wf_cfunc = ''PGM_destroy_model'', wf_handle = CObj HandlePtr 4096,
              wf_name = ''destroy_model'', wf_c_argtypes = [ModelPtr],
              wf_c_restype = PyNone\<rparr>, sample_world)
   \<and> marshal sample_env [CObj ModelPtr 7] [ModelPtr] [] = Inr [CObj ModelPtr 7]
   \<and> calls (snd (WrapperFunc_call sample_env
        \<lparr>wf_cfunc = ''PGM_destroy_model'', wf_handle = CObj HandlePtr 4096,
         wf_name = ''destroy_model'', wf_c_argtypes = [ModelPtr], wf_c_restype = PyNone\<rparr>
        [CObj ModelPtr 7] sample_world))
     = [(''PGM_destroy_model'', [CObj ModelPtr 7])]
   \<and> WrapperFunc_init sample_env (CObj HandlePtr 4096) ''copy_model'' [ModelPtr] ModelPtr
       sample_world
     = (Inr \<lparr>wf_cfunc = ''PGM_copy_model'', wf_handle = CObj HandlePtr 4096,
              wf_name = ''copy_model'', wf_c_argtypes = [ModelPtr],
              wf_c_restype = ModelPtr\<rparr>, sample_world)
   \<and> calls (snd (WrapperFunc_call sample_env
        \<lparr>wf_cfunc = ''PGM_copy_model'', wf_handle = CObj HandlePtr 4096,
         wf_name = ''copy_model'', wf_c_argtypes = [ModelPtr], wf_c_restype = ModelPtr\<rparr>
        [CObj ModelPtr 7] sample_world))
     = [(''PGM_copy_model'', [CObj HandlePtr 4096, CObj ModelPtr 7])]"
proof -
  have d: "WrapperFunc_init sample_env (CObj HandlePtr 4096) ''destroy_model'' [ModelPtr] PyNone
       sample_world
     = (Inr \<lparr>wf_cfunc = ''PGM_destroy_model'', wf_handle = CObj HandlePtr 4096,
              wf_name = ''destroy_model'', wf_c_argtypes = [ModelPtr],
              wf_c_restype = PyNone\<rparr>, sample_world)"
    by (simp add: WrapperFunc_init_Inr sample_env_def)
  have c: "WrapperFunc_init sample_env (CObj HandlePtr 4096) ''copy_model'' [ModelPtr] ModelPtr
       sample_world
     = (Inr \<lparr>wf_cfunc = ''PGM_copy_model'', wf_handle = CObj HandlePtr 4096,
              wf_name = ''copy_model'', wf_c_argtypes = [ModelPtr],
              wf_c_restype = ModelPtr\<rparr>, sample_world)"
    by (simp add: WrapperFunc_init_Inr sample_env_def)
  have m: "marshal sample_env [CObj ModelPtr 7] [ModelPtr] [] = Inr [CObj ModelPtr 7]"
    by simp
  have nil: "calls sample_world = []"
    by (simp add: sample_world_def)
  from handle_prepended_unless_destroy
      [of sample_env "\<lparr>inst_handle = CObj HandlePtr 4096, attrs = Map.empty\<rparr>"
        "''destroy_model''" "[ModelPtr]" PyNone sample_world _ sample_world
        "[CObj ModelPtr 7]" "[CObj ModelPtr 7]" sample_world]
    handle_prepended_unless_destroy
      [of sample_env "\<lparr>inst_handle = CObj HandlePtr 4096, attrs = Map.empty\<rparr>"
        "''copy_model''" "[ModelPtr]" ModelPtr sample_world _ sample_world
        "[CObj ModelPtr 7]" "[CObj ModelPtr 7]" sample_world]
    d c m nil
  show ?thesis by simp
qed

text \<open>
  C3: \<^verbatim>\<open>__copy__\<close> and \<^verbatim>\<open>__deepcopy__\<close> raise \<^verbatim>\<open>NotImplementedError\<close> in
  every state and leave the process state, so also the trace of native calls, as it was.
\<close>

theorem copy_not_supported:
  "PowerGridCore_copy self w = (Inl (NotImplementedError ''Class not copyable''), w)
   \<and> PowerGridCore_deepcopy self memodict w = (Inl (NotImplementedError ''class not copyable''), w)"
  by (simp add: PowerGridCore_copy_def PowerGridCore_deepcopy_def raiseE_def)



text \<open>
  C5: constructing a session makes one native call, \<^verbatim>\<open>PGM_create_handle\<close>, whose
  result is stored as the handle of the instance and of every wrapper, before any binding
  can run. Every binding call made afterwards is a call of a generated binding that is
  not one of the two handle entry points and, unless its name contains
  \<^verbatim>\<open>destroy\<close>, has that handle as its first input. \<^verbatim>\<open>__del__\<close> then makes one
  call, \<^verbatim>\<open>PGM_destroy_handle\<close> on that handle.
\<close>

theorem handle_created_used_destroyed:
  assumes loaded: "module_load E wm = (Inr (cls, pgc), wm')"
    and built: "PowerGridCore_construct E w0 = (Inr self, w1)"
  shows "calls w1 = calls w0 @ [(''PGM_create_handle'', [])]
     \<and> fst (call_cfunc E ''PGM_create_handle'' [] w0) = Inr (inst_handle self)
     \<and> (\<forall>n wfun. attrs self n = Some wfun \<longrightarrow> wf_handle wfun = inst_handle self)
     \<and> (\<exists>mid. calls (run_calls E cls self cs w1) = calls w1 @ mid
          \<and> (\<forall>e \<in> set mid. \<exists>name ins. name \<in> set binding_names
                \<and> e = (''PGM_'' @ name,
                       if py_in ''destroy'' name then ins else inst_handle self # ins))
          \<and> ''PGM_create_handle'' \<notin> fst ` set mid
          \<and> ''PGM_destroy_handle'' \<notin> fst ` set mid)
     \<and> calls (snd (PowerGridCore_del E self (run_calls E cls self cs w1)))
         = calls (run_calls E cls self cs w1) @ [(''PGM_destroy_handle'', [inst_handle self])]"
proof -
  from loaded obtain wa wb where
    lc: "load_core E wm = (Inr (), wa)"
    and cb: "class_body E decorated_methods wa = (Inr cls, wb)"
    by (rule module_load_Inr)
  note c = PowerGridCore_construct_Inr [OF built]
  let ?anames = "filter (\<lambda>n. \<not> startswith n ''_'') (map fst class_annotations)"
  have wf: "well_formed self ?anames" by (rule c(3))
  have stored: "\<forall>n wfun. attrs self n = Some wfun \<longrightarrow> wf_handle wfun = inst_handle self"
    using wf unfolding well_formed_def by blast
  note k = class_names_are_bindings [OF cb]
  from run_calls_calls [OF wf k(2), of E cs w1] obtain mid where
    mid: "calls (run_calls E cls self cs w1) = calls w1 @ mid"
    and good: "\<forall>e \<in> set mid. \<exists>name ins.
              (name \<in> set ?anames \<or> name \<in> fst ` set cls) \<and>
              e = (''PGM_'' @ name,
                   (if py_in ''destroy'' name then [] else [inst_handle self]) @ ins)"
    by blast
  have names: "name \<in> set binding_names" if "name \<in> set ?anames \<or> name \<in> fst ` set cls" for name
    using that k(1) by (auto simp: binding_names_def)
  have good': "\<forall>e \<in> set mid. \<exists>name ins. name \<in> set binding_names
                \<and> e = (''PGM_'' @ name,
                       if py_in ''destroy'' name then ins else inst_handle self # ins)"
  proof
    fix e assume "e \<in> set mid"
    with good obtain name ins where
      d: "name \<in> set ?anames \<or> name \<in> fst ` set cls"
      and e: "e = (''PGM_'' @ name,
                   (if py_in ''destroy'' name then [] else [inst_handle self]) @ ins)"
      by blast
    from names [OF d] e
    show "\<exists>name ins. name \<in> set binding_names
                \<and> e = (''PGM_'' @ name,
                       if py_in ''destroy'' name then ins else inst_handle self # ins)"
      by (intro exI [of _ name] exI [of _ ins]) simp
  qed
  have none: "''PGM_create_handle'' \<notin> fst ` set mid" "''PGM_destroy_handle'' \<notin> fst ` set mid"
    using good' PGM_handle_symbols by fastforce+
  from load_core_Inr [OF lc] have "has_symbol E ''PGM_destroy_handle''" by simp
  then have del: "calls (snd (PowerGridCore_del E self w))
         = calls w @ [(''PGM_destroy_handle'', [inst_handle self])]" for w
    by (simp add: PowerGridCore_del_def bindE_def getattr_CDLL_def calls_call_cfunc)
  show ?thesis
    using c(1) c(2) stored mid good' none del by blast
qed

theorem handle_created_used_destroyed_witness:
  "\<exists>cls pgc wm' self w1.
     module_load sample_env sample_world = (Inr (cls, pgc), wm')
     \<and> PowerGridCore_construct sample_env sample_world = (Inr self, w1)
     \<and> calls w1 = [(''PGM_create_handle'', [])]
     \<and> inst_handle self = CObj HandlePtr 4096
     \<and> calls (snd (PowerGridCore_del sample_env self
          (run_calls sample_env cls self
             [(''meta_n_datasets'', []), (''destroy_model'', [])] w1)))
         = [(''PGM_create_handle'', []),
            (''PGM_meta_n_datasets'', [CObj HandlePtr 4096]),
            (''PGM_destroy_model'', []),
            (''PGM_destroy_handle'', [CObj HandlePtr 4096])]"
proof -
  from module_load_succeeds [OF sample_env_works, of sample_world]
  obtain cls pgc wm' where loaded: "module_load sample_env sample_world = (Inr (cls, pgc), wm')"
    by blast
  from PowerGridCore_construct_succeeds [OF sample_env_works(2,3), of sample_world]
  obtain self w1 where built: "PowerGridCore_construct sample_env sample_world = (Inr self, w1)"
    by blast
  have made: "fst (call_cfunc sample_env ''PGM_create_handle'' [] sample_world)
      = Inr (CObj HandlePtr 4096)"
    by (simp add: call_cfunc_def sample_env_def)
  have nil: "calls sample_world = []"
    by (simp add: sample_world_def)
  let ?cs = "[(''meta_n_datasets'', []), (''destroy_model'', [])]"
  note life = handle_created_used_destroyed [OF loaded built, of ?cs]
  from life made nil have first: "calls w1 = [(''PGM_create_handle'', [])]"
    and h: "inst_handle self = CObj HandlePtr 4096"
    by simp_all
  from life have last: "calls (snd (PowerGridCore_del sample_env self
          (run_calls sample_env cls self ?cs w1)))
         = calls (run_calls sample_env cls self ?cs w1)
           @ [(''PGM_destroy_handle'', [inst_handle self])]"
    by blast
  from loaded obtain wa wb where
    cb: "class_body sample_env decorated_methods wa = (Inr cls, wb)"
    by (rule module_load_Inr)
  from class_body_Inr [OF cb] have names: "map fst cls = map fname decorated_methods"
    and own: "\<forall>(n, cb) \<in> set cls. cb_name cb = n" by blast+
  from names have "fst ` set cls = set (map fname decorated_methods)" by (metis set_map)
  then have d1: "''meta_n_datasets'' \<in> fst ` set cls"
    by (simp add: decorated_methods_def)
  have d2: "''destroy_model''
      \<in> set (filter (\<lambda>n. \<not> startswith n ''_'') (map fst class_annotations))"
    by (simp add: class_annotations_def)
  note wf = PowerGridCore_construct_Inr(3) [OF built]
  have sym: "has_symbol sample_env (''PGM_'' @ ''meta_n_datasets'')"
    by (simp add: sample_env_def)
  have one: "calls (snd (call_method sample_env cls self ''meta_n_datasets'' [] w))
       = calls w @ [(''PGM_meta_n_datasets'', [CObj HandlePtr 4096])]" for w
    using call_method_no_args [OF wf own, of "''meta_n_datasets''" sample_env w] d1 sym h
    by simp
  have two: "calls (snd (call_method sample_env cls self ''destroy_model'' [] w))
       = calls w @ [(''PGM_destroy_model'', [])]" for w
    using call_method_no_args [OF wf own, of "''destroy_model''" sample_env w] d2
    by simp
  have "calls (run_calls sample_env cls self ?cs w1)
      = [(''PGM_create_handle'', []), (''PGM_meta_n_datasets'', [CObj HandlePtr 4096]),
         (''PGM_destroy_model'', [])]"
    using one two first by simp
  with last h have "calls (snd (PowerGridCore_del sample_env self
          (run_calls sample_env cls self ?cs w1)))
         = [(''PGM_create_handle'', []),
            (''PGM_meta_n_datasets'', [CObj HandlePtr 4096]),
            (''PGM_destroy_model'', []),
            (''PGM_destroy_handle'', [CObj HandlePtr 4096])]"
    by simp
  with loaded built first h show ?thesis by blast
qed

text \<open>
  C6: the mapping sends \<^verbatim>\<open>str\<close> to \<open>c_char_p\<close>, \<^verbatim>\<open>int\<close> to \<open>IdxC\<close>,
  \<^verbatim>\<open>float\<close> to \<open>c_double\<close>, and every other type object to itself.
\<close>

theorem mapping_get_table:
  "mapping_get py_str = c_char_p \<and> mapping_get py_int = IdxC \<and> mapping_get py_float = c_double
   \<and> (\<forall>t. t \<notin> {py_str, py_int, py_float} \<longrightarrow> mapping_get t = t)"
  by (simp add: mapping_get_def ARGS_TYPE_MAPPING_def)

theorem mapping_get_table_witness:
  "HandlePtr \<notin> {py_str, py_int, py_float} \<and> mapping_get HandlePtr = HandlePtr
   \<and> IdxDoublePtr \<notin> {py_str, py_int, py_float} \<and> mapping_get IdxDoublePtr = IdxDoublePtr"
  using mapping_get_table by (simp add: IdxDoublePtr_def)

text \<open>
  C7: importing the module assigns \<^verbatim>\<open>argtypes\<close> once and \<^verbatim>\<open>restype\<close> once for
  every generated binding and leaves an adapter stored under every binding name (a
  wrapper on the instance or a closure in the class). No call of a binding assigns
  \<^verbatim>\<open>argtypes\<close> or \<^verbatim>\<open>restype\<close> of any function, so the configured typing stays as
  it is. Constructing a session assigns the typing of the bindings declared by
  annotation once and of the decorated bindings not at all.
\<close>

theorem typing_configured_once_and_kept:
  assumes loaded: "module_load E w0 = (Inr (cls, pgc), w1)"
  shows "(\<forall>n \<in> set binding_names.
            length (filter (writes_argtypes (''PGM_'' @ n)) (cfg_log w1))
              = length (filter (writes_argtypes (''PGM_'' @ n)) (cfg_log w0)) + 1
          \<and> length (filter (writes_restype (''PGM_'' @ n)) (cfg_log w1))
              = length (filter (writes_restype (''PGM_'' @ n)) (cfg_log w0)) + 1)
     \<and> (\<forall>n \<in> set binding_names.
            (\<exists>wfun. attrs pgc n = Some wfun \<and> wf_name wfun = n)
          \<or> (\<exists>cb. map_of cls n = Some cb \<and> cb_name cb = n))
     \<and> (\<forall>name args w.
            argtypes_cfg (snd (call_method E cls pgc name args w)) = argtypes_cfg w
          \<and> restype_cfg (snd (call_method E cls pgc name args w)) = restype_cfg w
          \<and> cfg_log (snd (call_method E cls pgc name args w)) = cfg_log w)
     \<and> (\<forall>cs w.
            argtypes_cfg (run_calls E cls pgc cs w) = argtypes_cfg w
          \<and> restype_cfg (run_calls E cls pgc cs w) = restype_cfg w
          \<and> cfg_log (run_calls E cls pgc cs w) = cfg_log w)
     \<and> (\<forall>w self w'. PowerGridCore_construct E w = (Inr self, w') \<longrightarrow>
          (\<forall>n \<in> set binding_names.
              length (filter (writes_argtypes (''PGM_'' @ n)) (cfg_log w'))
                = length (filter (writes_argtypes (''PGM_'' @ n)) (cfg_log w))
                  + (if n \<in> fname ` set decorated_methods then 0 else 1)
            \<and> length (filter (writes_restype (''PGM_'' @ n)) (cfg_log w'))
                = length (filter (writes_restype (''PGM_'' @ n)) (cfg_log w))
                  + (if n \<in> fname ` set decorated_methods then 0 else 1)))"
proof -
  from loaded obtain wa wb where
    lc: "load_core E w0 = (Inr (), wa)"
    and cb: "class_body E decorated_methods wa = (Inr cls, wb)"
    and built: "PowerGridCore_construct E wb = (Inr pgc, w1)"
    by (rule module_load_Inr)
  let ?anames = "filter (\<lambda>n. \<not> startswith n ''_'') (map fst class_annotations)"
  note l = load_core_Inr [OF lc]
  note b = class_body_Inr [OF cb]
  note c = PowerGridCore_construct_Inr [OF built]
  have once: "length (filter (writes_argtypes (''PGM_'' @ n)) (cfg_log w1))
              = length (filter (writes_argtypes (''PGM_'' @ n)) (cfg_log w0)) + 1
          \<and> length (filter (writes_restype (''PGM_'' @ n)) (cfg_log w1))
              = length (filter (writes_restype (''PGM_'' @ n)) (cfg_log w0)) + 1"
    if n: "n \<in> set binding_names" for n
  proof -
    have one: "count_list (map ((@) ''PGM_'') binding_names) (''PGM_'' @ n) = 1"
      using count_list_map_inj [OF inj_PGM, of binding_names n]
        count_list_distinct [OF binding_names_distinct n] by simp
    have split: "map ((@) ''PGM_'') binding_names
        = map (\<lambda>f. ''PGM_'' @ fname f) decorated_methods @ map ((@) ''PGM_'') ?anames"
      by (simp add: binding_names_def comp_def)
    have sum: "count_list (map (\<lambda>f. ''PGM_'' @ fname f) decorated_methods) (''PGM_'' @ n)
        + count_list (map ((@) ''PGM_'') ?anames) (''PGM_'' @ n) = 1"
      using one unfolding split by simp
    from PGM_handle_symbols [OF n] l
    have la: "length (filter (writes_argtypes (''PGM_'' @ n)) (cfg_log wa))
                = length (filter (writes_argtypes (''PGM_'' @ n)) (cfg_log w0))"
      and lr: "length (filter (writes_restype (''PGM_'' @ n)) (cfg_log wa))
                = length (filter (writes_restype (''PGM_'' @ n)) (cfg_log w0))"
      by auto
    from b have ba: "length (filter (writes_argtypes (''PGM_'' @ n)) (cfg_log wb))
            = length (filter (writes_argtypes (''PGM_'' @ n)) (cfg_log wa))
              + count_list (map (\<lambda>f. ''PGM_'' @ fname f) decorated_methods) (''PGM_'' @ n)"
      and br: "length (filter (writes_restype (''PGM_'' @ n)) (cfg_log wb))
            = length (filter (writes_restype (''PGM_'' @ n)) (cfg_log wa))
              + count_list (map (\<lambda>f. ''PGM_'' @ fname f) decorated_methods) (''PGM_'' @ n)"
      by blast+
    from la lr ba br c(4) [of "''PGM_'' @ n"] c(5) [of "''PGM_'' @ n"] sum
    show ?thesis by linarith
  qed
  have cached: "(\<exists>wfun. attrs pgc n = Some wfun \<and> wf_name wfun = n)
          \<or> (\<exists>cb. map_of cls n = Some cb \<and> cb_name cb = n)"
    if n: "n \<in> set binding_names" for n
  proof (cases "n \<in> set ?anames")
    case True
    with c(3) show ?thesis unfolding well_formed_def by auto
  next
    case False
    with n have "n \<in> set (map fname decorated_methods)" by (auto simp: binding_names_def)
    with b have "n \<in> fst ` set cls" by (metis set_map)
    then obtain cb where s: "map_of cls n = Some cb"
      by (metis map_of_eq_None_iff not_Some_eq)
    then have "(n, cb) \<in> set cls" by (rule map_of_SomeD)
    with b have "cb_name cb = n" by auto
    with s show ?thesis by blast
  qed
  have p1: "\<forall>n \<in> set binding_names.
            length (filter (writes_argtypes (''PGM_'' @ n)) (cfg_log w1))
              = length (filter (writes_argtypes (''PGM_'' @ n)) (cfg_log w0)) + 1
          \<and> length (filter (writes_restype (''PGM_'' @ n)) (cfg_log w1))
              = length (filter (writes_restype (''PGM_'' @ n)) (cfg_log w0)) + 1"
    using once by blast
  have p2: "\<forall>n \<in> set binding_names.
            (\<exists>wfun. attrs pgc n = Some wfun \<and> wf_name wfun = n)
          \<or> (\<exists>cb. map_of cls n = Some cb \<and> cb_name cb = n)"
    using cached by blast
  have p3: "\<forall>name args w.
            argtypes_cfg (snd (call_method E cls pgc name args w)) = argtypes_cfg w
          \<and> restype_cfg (snd (call_method E cls pgc name args w)) = restype_cfg w
          \<and> cfg_log (snd (call_method E cls pgc name args w)) = cfg_log w"
    by (simp add: keepsD [OF keeps_call_method(1)] keepsD [OF keeps_call_method(2)]
        keepsD [OF keeps_call_method(3)])
  have p4: "\<forall>cs w.
            argtypes_cfg (run_calls E cls pgc cs w) = argtypes_cfg w
          \<and> restype_cfg (run_calls E cls pgc cs w) = restype_cfg w
          \<and> cfg_log (run_calls E cls pgc cs w) = cfg_log w"
    by (simp add: run_calls_keeps)
  have p5: "\<forall>w self w'. PowerGridCore_construct E w = (Inr self, w') \<longrightarrow>
          (\<forall>n \<in> set binding_names.
              length (filter (writes_argtypes (''PGM_'' @ n)) (cfg_log w'))
                = length (filter (writes_argtypes (''PGM_'' @ n)) (cfg_log w))
                  + (if n \<in> fname ` set decorated_methods then 0 else 1)
            \<and> length (filter (writes_restype (''PGM_'' @ n)) (cfg_log w'))
                = length (filter (writes_restype (''PGM_'' @ n)) (cfg_log w))
                  + (if n \<in> fname ` set decorated_methods then 0 else 1))"
    using construct_assigns_annotated_only by blast
  from p1 p2 p3 p4 p5 show ?thesis by (intro conjI)
qed

theorem typing_configured_once_and_kept_witness:
  "\<exists>cls pgc w1.
     module_load sample_env sample_world = (Inr (cls, pgc), w1)
     \<and> ''calculate'' \<in> set binding_names
     \<and> length (filter (writes_argtypes ''PGM_calculate'') (cfg_log w1)) = 1
     \<and> length (filter (writes_restype ''PGM_calculate'') (cfg_log w1)) = 1
     \<and> cfg_log (snd (call_method sample_env cls pgc ''calculate'' [] w1)) = cfg_log w1"
proof -
  from module_load_succeeds [OF sample_env_works, of sample_world]
  obtain cls pgc w1 where loaded: "module_load sample_env sample_world = (Inr (cls, pgc), w1)"
    by blast
  have mem: "''calculate'' \<in> set binding_names"
    by (simp add: binding_names_def decorated_methods_def)
  have nil: "cfg_log sample_world = []"
    by (simp add: sample_world_def)
  note kept = typing_configured_once_and_kept [OF loaded]
  from kept [THEN conjunct1] kept [THEN conjunct2, THEN conjunct2, THEN conjunct1] mem nil
  have "length (filter (writes_argtypes ''PGM_calculate'') (cfg_log w1)) = 1
     \<and> length (filter (writes_restype ''PGM_calculate'') (cfg_log w1)) = 1
     \<and> cfg_log (snd (call_method sample_env cls pgc ''calculate'' [] w1)) = cfg_log w1"
    by fastforce
  with loaded mem show ?thesis by blast
qed

text \<open>
  C8: importing the module hands one path to \<^verbatim>\<open>CDLL\<close>, whether the load succeeds
  or not; when the library cannot be loaded the import ends with \<^verbatim>\<open>OSError\<close> and
  nothing else has happened; when the loader returns, \<^verbatim>\<open>PGM_create_handle\<close> and
  \<^verbatim>\<open>PGM_destroy_handle\<close> carry their argument and return types; constructing a
  session, calling bindings and tearing a session down load nothing.
\<close>

theorem library_loaded_once_or_fatal:
  "load_log (snd (module_load E w)) = load_log w @ [path_join E (module_dir E)
        (if platform_system E = ''Windows'' then ''_power_grid_core.dll''
         else ''_power_grid_core.so'')]
   \<and> (\<not> cdll_loadable E (path_join E (module_dir E)
        (if platform_system E = ''Windows'' then ''_power_grid_core.dll''
         else ''_power_grid_core.so''))
       \<longrightarrow> module_load E w = (Inl OSError, w\<lparr>load_log := load_log w @ [path_join E (module_dir E)
        (if platform_system E = ''Windows'' then ''_power_grid_core.dll''
         else ''_power_grid_core.so'')]\<rparr>))
   \<and> (\<forall>u w'. load_core E w = (Inr u, w') \<longrightarrow>
         argtypes_cfg w' ''PGM_create_handle'' = Some []
         \<and> restype_cfg w' ''PGM_create_handle'' = Some HandlePtr
         \<and> argtypes_cfg w' ''PGM_destroy_handle'' = Some [HandlePtr]
         \<and> restype_cfg w' ''PGM_destroy_handle'' = Some PyNone)
   \<and> load_log (snd (PowerGridCore_construct E w)) = load_log w
   \<and> load_log (run_calls E cls self cs w) = load_log w
   \<and> load_log (snd (PowerGridCore_del E self w)) = load_log w"
proof -
  have fatal: "module_load E w = (Inl OSError, w\<lparr>load_log := load_log w @ [path_join E (module_dir E)
        (if platform_system E = ''Windows'' then ''_power_grid_core.dll''
         else ''_power_grid_core.so'')]\<rparr>)"
    if "\<not> cdll_loadable E (path_join E (module_dir E)
        (if platform_system E = ''Windows'' then ''_power_grid_core.dll''
         else ''_power_grid_core.so''))"
    using load_core_fails [OF that, of w] by (simp add: module_load_def bindE_def)
  have typed: "argtypes_cfg w' ''PGM_create_handle'' = Some []
         \<and> restype_cfg w' ''PGM_create_handle'' = Some HandlePtr
         \<and> argtypes_cfg w' ''PGM_destroy_handle'' = Some [HandlePtr]
         \<and> restype_cfg w' ''PGM_destroy_handle'' = Some PyNone"
    if "load_core E w = (Inr u, w')" for u w'
    using load_core_Inr [OF that] by simp
  show ?thesis
    using module_load_load_log [of E w] fatal typed
      keepsD [OF keeps_PowerGridCore_construct, of E w]
      run_calls_keeps(4) [of E cls self cs w]
      keepsD [OF keeps_PowerGridCore_del(4), of E self w]
    by blast
qed

theorem library_loaded_once_or_fatal_witness:
  "\<not> cdll_loadable (sample_env\<lparr>cdll_loadable := (\<lambda>p. False)\<rparr>) ''/opt/pgm/_power_grid_core.so''
   \<and> module_load (sample_env\<lparr>cdll_loadable := (\<lambda>p. False)\<rparr>) sample_world
       = (Inl OSError, sample_world\<lparr>load_log := [''/opt/pgm/_power_grid_core.so'']\<rparr>)
   \<and> (\<exists>w'. load_core sample_env sample_world = (Inr (), w')
         \<and> argtypes_cfg w' ''PGM_create_handle'' = Some []
         \<and> restype_cfg w' ''PGM_create_handle'' = Some HandlePtr
         \<and> argtypes_cfg w' ''PGM_destroy_handle'' = Some [HandlePtr]
         \<and> restype_cfg w' ''PGM_destroy_handle'' = Some PyNone)
   \<and> load_log (snd (module_load sample_env sample_world)) = [''/opt/pgm/_power_grid_core.so'']"
proof -
  have nil: "load_log sample_world = []"
    by (simp add: sample_world_def)
  obtain w' where lc: "load_core sample_env sample_world = (Inr (), w')"
    by (simp add: load_core_def Let_def bindE_def getattr_CDLL_def set_argtypes_def
        set_restype_def sample_env_def)
  from library_loaded_once_or_fatal [of "sample_env\<lparr>cdll_loadable := (\<lambda>p. False)\<rparr>" sample_world] nil
  have fatal: "module_load (sample_env\<lparr>cdll_loadable := (\<lambda>p. False)\<rparr>) sample_world
       = (Inl OSError, sample_world\<lparr>load_log := [''/opt/pgm/_power_grid_core.so'']\<rparr>)"
    by (simp add: sample_env_def)
  from library_loaded_once_or_fatal [of sample_env sample_world] nil lc
  have "argtypes_cfg w' ''PGM_create_handle'' = Some []
         \<and> restype_cfg w' ''PGM_create_handle'' = Some HandlePtr
         \<and> argtypes_cfg w' ''PGM_destroy_handle'' = Some [HandlePtr]
         \<and> restype_cfg w' ''PGM_destroy_handle'' = Some PyNone
         \<and> load_log (snd (module_load sample_env sample_world)) = [''/opt/pgm/_power_grid_core.so'']"
    by (simp add: sample_env_def)
  with fatal lc show ?thesis by simp
qed

text \<open>
  C9: the closure made by \<^verbatim>\<open>make_c_binding\<close> and a \<^verbatim>\<open>WrapperFunc\<close> built with
  the same name, argument types, return type and handle give the same result and the same
  process state, hence the same native call with the same inputs, on every argument tuple.
\<close>

theorem binding_mechanisms_agree:
  assumes "WrapperFunc_init E (inst_handle self) (cb_name cb) (cb_c_argtypes cb) (cb_c_restype cb) w0
             = (Inr wfun, w1)"
  shows "cbind_func E cb self args w = WrapperFunc_call E wfun args w"
  using call_paths_agree [OF assms] .

theorem binding_mechanisms_agree_witness:
  "WrapperFunc_init sample_env (CObj HandlePtr 4096) ''meta_dataset_name'' [IdxC] c_char_p
       sample_world
     = (Inr \<lparr>wf_cfunc = ''PGM_meta_dataset_name'', wf_handle = CObj HandlePtr 4096,
              wf_name = ''meta_dataset_name'', wf_c_argtypes = [IdxC],
              wf_c_restype = c_char_p\<rparr>, sample_world)
   \<and> cbind_func sample_env (Cbind ''meta_dataset_name'' [IdxC] c_char_p)
        \<lparr>inst_handle = CObj HandlePtr 4096, attrs = Map.empty\<rparr> [PyInt 0] sample_world
     = WrapperFunc_call sample_env
        \<lparr>wf_cfunc = ''PGM_meta_dataset_name'', wf_handle = CObj HandlePtr 4096,
         wf_name = ''meta_dataset_name'', wf_c_argtypes = [IdxC], wf_c_restype = c_char_p\<rparr>
        [PyInt 0] sample_world"
proof -
  have made: "WrapperFunc_init sample_env (CObj HandlePtr 4096) ''meta_dataset_name'' [IdxC]
       c_char_p sample_world
     = (Inr \<lparr>wf_cfunc = ''PGM_meta_dataset_name'', wf_handle = CObj HandlePtr 4096,
              wf_name = ''meta_dataset_name'', wf_c_argtypes = [IdxC],
              wf_c_restype = c_char_p\<rparr>, sample_world)"
    by (simp add: WrapperFunc_init_Inr sample_env_def)
  from binding_mechanisms_agree
    [of sample_env "\<lparr>inst_handle = CObj HandlePtr 4096, attrs = Map.empty\<rparr>"
      "Cbind ''meta_dataset_name'' [IdxC] c_char_p" sample_world _ sample_world
      "[PyInt 0]" sample_world] made
  show ?thesis by simp
qed

text \<open>
  C10: the loop pairs arguments and declared types by position and stops at the shorter
  list. When the positions of text type hold text that encodes, marshalling succeeds
  with as many inputs as the shorter list is long, each made from the argument at its
  position, and on both paths the one native call made gets exactly these inputs after
  the handle (or alone for a destroy name): arguments beyond the declared types are
  left out and raise nothing, and with fewer arguments than types the supplied ones are
  passed. The outcome of the call is that of the native call, decoded for a text result;
  a call with surplus arguments is the call without them.
\<close>

theorem surplus_arguments_dropped:
  assumes built: "WrapperFunc_init E (inst_handle self) name c_argtypes c_restype w0 = (Inr wfun, w1)"
    and text_ok: "\<forall>i < min (length args) (length c_argtypes). c_argtypes ! i = c_char_p \<longrightarrow>
            (\<exists>s b. args ! i = PyStr s \<and> str_encode E s = Inr b)"
  shows "\<exists>ms. marshal E args c_argtypes [] = Inr ms
       \<and> length ms = min (length args) (length c_argtypes)
       \<and> (\<forall>i < length ms.
             if c_argtypes ! i = c_char_p then py_encode E (args ! i) = Inr (ms ! i)
             else ms ! i = args ! i)
       \<and> calls (snd (cbind_func E (Cbind name c_argtypes c_restype) self args w))
           = calls w @ [(''PGM_'' @ name,
                         (if py_in ''destroy'' name then [] else [inst_handle self]) @ ms)]
       \<and> calls (snd (WrapperFunc_call E wfun args w))
           = calls w @ [(''PGM_'' @ name,
                         (if py_in ''destroy'' name then [] else [inst_handle self]) @ ms)]
       \<and> cbind_func E (Cbind name c_argtypes c_restype) self args w
           = (case call_cfunc E (''PGM_'' @ name)
                     ((if py_in ''destroy'' name then [] else [inst_handle self]) @ ms) w of
                (Inl e, w') \<Rightarrow> (Inl e, w')
              | (Inr res, w') \<Rightarrow>
                  (if c_restype = c_char_p then py_decode E res else Inr res, w'))
       \<and> WrapperFunc_call E wfun args w
           = cbind_func E (Cbind name c_argtypes c_restype) self args w
       \<and> cbind_func E (Cbind name c_argtypes c_restype) self args w
           = cbind_func E (Cbind name c_argtypes c_restype) self
               (take (length c_argtypes) args) w
       \<and> WrapperFunc_call E wfun args w
           = WrapperFunc_call E wfun (take (length c_argtypes) args) w"
proof -
  from built have exported: "has_symbol E (''PGM_'' @ name)"
    and wfun: "wfun = \<lparr>wf_cfunc = ''PGM_'' @ name, wf_handle = inst_handle self,
        wf_name = name, wf_c_argtypes = c_argtypes, wf_c_restype = c_restype\<rparr>"
    by (simp_all add: WrapperFunc_init_Inr)
  have "\<exists>ms. marshal E args c_argtypes [] = Inr ms"
  proof (rule marshal_total)
    fix i assume "i < min (length args) (length c_argtypes)" "c_argtypes ! i = c_char_p"
    with text_ok obtain s b where "args ! i = PyStr s" "str_encode E s = Inr b" by blast
    then show "\<exists>b. py_encode E (args ! i) = Inr b" by simp
  qed
  then obtain ms where m: "marshal E args c_argtypes [] = Inr ms" ..
  from marshal_length [OF m] have len: "length ms = min (length args) (length c_argtypes)"
    by simp
  have pointwise: "\<forall>i < length ms.
             if c_argtypes ! i = c_char_p then py_encode E (args ! i) = Inr (ms ! i)
             else ms ! i = args ! i"
    using marshal_nth [OF m] by blast
  have c1: "calls (snd (cbind_func E (Cbind name c_argtypes c_restype) self args w))
           = calls w @ [(''PGM_'' @ name,
                         (if py_in ''destroy'' name then [] else [inst_handle self]) @ ms)]"
    using calls_cbind_func [of E args "Cbind name c_argtypes c_restype" ms self w] m exported
    by simp
  have c2: "calls (snd (WrapperFunc_call E wfun args w))
           = calls w @ [(''PGM_'' @ name,
                         (if py_in ''destroy'' name then [] else [inst_handle self]) @ ms)]"
    using calls_WrapperFunc_call [of E args wfun ms w] m by (simp add: wfun)
  have r: "cbind_func E (Cbind name c_argtypes c_restype) self args w
           = (case call_cfunc E (''PGM_'' @ name)
                     ((if py_in ''destroy'' name then [] else [inst_handle self]) @ ms) w of
                (Inl e, w') \<Rightarrow> (Inl e, w')
              | (Inr res, w') \<Rightarrow>
                  (if c_restype = c_char_p then py_decode E res else Inr res, w'))"
    using cbind_func_marshalled [of E args "Cbind name c_argtypes c_restype" ms self w,
        unfolded cbind.sel] m exported by simp
  have same: "WrapperFunc_call E wfun args w
           = cbind_func E (Cbind name c_argtypes c_restype) self args w"
    using call_paths_agree [of E self "Cbind name c_argtypes c_restype" w0 wfun w1 args w]
      built by simp
  have t1: "cbind_func E (Cbind name c_argtypes c_restype) self args w
           = cbind_func E (Cbind name c_argtypes c_restype) self
               (take (length c_argtypes) args) w"
    unfolding cbind_func_def Let_def
    using marshal_take_args [of E args c_argtypes] by simp
  have t2: "WrapperFunc_call E wfun args w
           = WrapperFunc_call E wfun (take (length c_argtypes) args) w"
    unfolding WrapperFunc_call_def Let_def wfun
    using marshal_take_args [of E args c_argtypes] by simp
  from m len pointwise c1 c2 r same t1 t2 show ?thesis by blast
qed

theorem surplus_arguments_dropped_witness:
  "WrapperFunc_init sample_env (CObj HandlePtr 4096) ''meta_component_name'' [c_char_p, IdxC]
       c_char_p sample_world
     = (Inr \<lparr>wf_cfunc = ''PGM_meta_component_name'', wf_handle = CObj HandlePtr 4096,
              wf_name = ''meta_component_name'', wf_c_argtypes = [c_char_p, IdxC],
              wf_c_restype = c_char_p\<rparr>, sample_world)
   \<and> marshal sample_env [PyStr ''input'', PyInt 0, PyInt 8, PyInt 9] [c_char_p, IdxC] []
     = Inr [PyBytes [105, 110, 112, 117, 116], PyInt 0]
   \<and> calls (snd (cbind_func sample_env (Cbind ''meta_component_name'' [c_char_p, IdxC] c_char_p)
        \<lparr>inst_handle = CObj HandlePtr 4096, attrs = Map.empty\<rparr>
        [PyStr ''input'', PyInt 0, PyInt 8, PyInt 9] sample_world))
     = [(''PGM_meta_component_name'',
         [CObj HandlePtr 4096, PyBytes [105, 110, 112, 117, 116], PyInt 0])]
   \<and> marshal sample_env [PyStr ''input''] [c_char_p, IdxC] []
     = Inr [PyBytes [105, 110, 112, 117, 116]]
   \<and> calls (snd (WrapperFunc_call sample_env
        \<lparr>wf_cfunc = ''PGM_meta_component_name'', wf_handle = CObj HandlePtr 4096,
         wf_name = ''meta_component_name'', wf_c_argtypes = [c_char_p, IdxC],
         wf_c_restype = c_char_p\<rparr>
        [PyStr ''input''] sample_world))
     = [(''PGM_meta_component_name'', [CObj HandlePtr 4096, PyBytes [105, 110, 112, 117, 116]])]"
proof -
  have made: "WrapperFunc_init sample_env (CObj HandlePtr 4096) ''meta_component_name''
       [c_char_p, IdxC] c_char_p sample_world
     = (Inr \<lparr>wf_cfunc = ''PGM_meta_component_name'', wf_handle = CObj HandlePtr 4096,
              wf_name = ''meta_component_name'', wf_c_argtypes = [c_char_p, IdxC],
              wf_c_restype = c_char_p\<rparr>, sample_world)"
    by (simp add: WrapperFunc_init_Inr sample_env_def)
  have more: "marshal sample_env [PyStr ''input'', PyInt 0, PyInt 8, PyInt 9] [c_char_p, IdxC] []
     = Inr [PyBytes [105, 110, 112, 117, 116], PyInt 0]"
    by (simp add: sample_env_def)
  have fewer: "marshal sample_env [PyStr ''input''] [c_char_p, IdxC] []
     = Inr [PyBytes [105, 110, 112, 117, 116]]"
    by (simp add: sample_env_def)
  have ok_more: "\<forall>i < min (length [PyStr ''input'', PyInt 0, PyInt 8, PyInt 9])
                          (length [c_char_p, IdxC]).
       [c_char_p, IdxC] ! i = c_char_p \<longrightarrow>
         (\<exists>s b. [PyStr ''input'', PyInt 0, PyInt 8, PyInt 9] ! i = PyStr s
                \<and> str_encode sample_env s = Inr b)"
    by (simp add: sample_env_def less_Suc_eq)
  have ok_fewer: "\<forall>i < min (length [PyStr ''input'']) (length [c_char_p, IdxC]).
       [c_char_p, IdxC] ! i = c_char_p \<longrightarrow>
         (\<exists>s b. [PyStr ''input''] ! i = PyStr s \<and> str_encode sample_env s = Inr b)"
    by (simp add: sample_env_def)
  have nil: "calls sample_world = []"
    by (simp add: sample_world_def)
  from surplus_arguments_dropped
      [of sample_env "\<lparr>inst_handle = CObj HandlePtr 4096, attrs = Map.empty\<rparr>"
        "''meta_component_name''" "[c_char_p, IdxC]" c_char_p sample_world _ sample_world
        "[PyStr ''input'', PyInt 0, PyInt 8, PyInt 9]" sample_world, OF _ ok_more]
    made more nil
  have a: "calls (snd (cbind_func sample_env
        (Cbind ''meta_component_name'' [c_char_p, IdxC] c_char_p)
        \<lparr>inst_handle = CObj HandlePtr 4096, attrs = Map.empty\<rparr>
        [PyStr ''input'', PyInt 0, PyInt 8, PyInt 9] sample_world))
     = [(''PGM_meta_component_name'',
         [CObj HandlePtr 4096, PyBytes [105, 110, 112, 117, 116], PyInt 0])]"
    by auto
  from surplus_arguments_dropped
      [of sample_env "\<lparr>inst_handle = CObj HandlePtr 4096, attrs = Map.empty\<rparr>"
        "''meta_component_name''" "[c_char_p, IdxC]" c_char_p sample_world _ sample_world
        "[PyStr ''input'']" sample_world, OF _ ok_fewer]
    made fewer nil
  have b: "calls (snd (WrapperFunc_call sample_env
        \<lparr>wf_cfunc = ''PGM_meta_component_name'', wf_handle = CObj HandlePtr 4096,
         wf_name = ''meta_component_name'', wf_c_argtypes = [c_char_p, IdxC],
         wf_c_restype = c_char_p\<rparr>
        [PyStr ''input''] sample_world))
     = [(''PGM_meta_component_name'', [CObj HandlePtr 4096, PyBytes [105, 110, 112, 117, 116]])]"
    by auto
  from made more fewer a b show ?thesis by simp
qed

end
